theory Spec2Isabelle
  imports Complex_Main "HOL-Library.AList"
begin

section \<open>Conventions of the embedding\<close>

text \<open>
  The gateway is Python. Its \<^verbatim>\<open>float\<close> quantities (token counts, rates, times) are
  modelled by \<^typ>\<open>real\<close>, so arithmetic is exact; its \<^verbatim>\<open>int\<close> quantities by \<^typ>\<open>int\<close>.

  Every call of \<^verbatim>\<open>time.monotonic()\<close> or \<^verbatim>\<open>time.time()\<close> is an input of the
  environment: a function that reads the clock takes the reading as an argument, one
  argument per read, in the order the code reads them.

  Every method body that runs under \<^verbatim>\<open>async with self._lock\<close> is one atomic state
  transformer: it takes the object and returns the updated object with the result.

  A Python \<^verbatim>\<open>dict\<close> that is iterated or listed is an association list in insertion
  order (\<open>AList.update\<close> replaces in place or appends, as assignment to a dict key
  does); a dict that is only looked up is a map.

  A Python \<^verbatim>\<open>str\<close> is the list of the bytes of its UTF-8 encoding, so a character
  beyond ASCII takes several elements.

  Private attributes drop their leading underscore (\<^verbatim>\<open>_buckets\<close> is \<open>buckets\<close>).
\<close>

section \<open>models.py\<close>

datatype ClientTier = FREE | BASIC | PREMIUM | ENTERPRISE

record RateLimitConfig =
  tokens_per_second :: real
  max_tokens :: int

record CircuitBreakerConfig =
  failure_threshold :: int
  recovery_timeout :: real
  half_open_requests :: int

text \<open>
  The text of a rejection reason is built by an f-string that formats a float with
  \<^verbatim>\<open>:.1f\<close>; the model keeps the interpolated values and not the rendered text.
\<close>

datatype rejection =
    CircuitOpenReason string real
  | HalfOpenReason string

text \<open>
  What \<^verbatim>\<open>self._client.request\<close> can raise: \<^verbatim>\<open>httpx.TimeoutException\<close>,
  \<^verbatim>\<open>httpx.ConnectError\<close>, an exception that is an instance of \<^verbatim>\<open>ValueError\<close>, or any
  other exception; the last two carry their text.
\<close>

datatype httpx_error =
    TimeoutException
  | ConnectError
  | ClientValueError string
  | OtherClientError string

text \<open>
  \<open>UnicodeEncodeError\<close> carries the text that does not encode. \<open>HTTPExceptionOf n e\<close> is
  \<^verbatim>\<open>HTTPException(status_code=n, detail=str(e))\<close> for an exception \<open>e\<close> whose text the
  model does not render.
\<close>

datatype py_error =
    ZeroDivisionError
  | KeyError
  | RuntimeError string
  | ValueError string
  | CircuitOpenError "rejection option"
  | UpstreamTimeoutError string
  | UpstreamConnectionError string
  | ClientException httpx_error
  | UnicodeEncodeError string
  | HTTPException int string
  | HTTPExceptionOf int py_error

text \<open>Whether an exception is an instance of \<^verbatim>\<open>ValueError\<close>.\<close>

fun is_ValueError :: "py_error \<Rightarrow> bool" where
  "is_ValueError (ValueError msg) = True"
| "is_ValueError (UnicodeEncodeError obj) = True"
| "is_ValueError (ClientException (ClientValueError msg)) = True"
| "is_ValueError e = False"

section \<open>rate\_limiter.py\<close>

record TokenBucket =
  tokens :: real
  max_tokens :: int
  refill_rate :: real
  last_refill :: real

definition refill :: "TokenBucket \<Rightarrow> real \<Rightarrow> TokenBucket" where
  "refill b now =
     (let elapsed = now - last_refill b in
      b\<lparr>tokens := min (of_int (max_tokens b)) (tokens b + elapsed * refill_rate b),
        last_refill := now\<rparr>)"

text \<open>
  \<open>consume\<close> returns the bucket as the call leaves it, and the result or the exception.
  Python's float division raises \<^verbatim>\<open>ZeroDivisionError\<close> on a zero divisor; by then the
  refill has happened.
\<close>

definition consume :: "TokenBucket \<Rightarrow> int \<Rightarrow> real \<Rightarrow> TokenBucket \<times> (py_error + bool \<times> real)" where
  "consume b n now =
     (let b1 = refill b now in
      if tokens b1 \<ge> of_int n then (b1\<lparr>tokens := tokens b1 - of_int n\<rparr>, Inr (True, 0))
      else
        (let tokens_needed = of_int n - tokens b1 in
         if refill_rate b1 = 0 then (b1, Inl ZeroDivisionError)
         else (b1, Inr (False, tokens_needed / refill_rate b1))))"

definition available_tokens :: "TokenBucket \<Rightarrow> real \<Rightarrow> TokenBucket \<times> real" where
  "available_tokens b now = (let b1 = refill b now in (b1, tokens b1))"

record RateLimiter =
  rate_configs :: "ClientTier \<rightharpoonup> RateLimitConfig"
  buckets :: "(string \<times> TokenBucket) list"
  client_tiers :: "(string \<times> ClientTier) list"

definition RateLimiter_init :: "(ClientTier \<rightharpoonup> RateLimitConfig) \<Rightarrow> RateLimiter" where
  "RateLimiter_init configs = \<lparr>rate_configs = configs, buckets = [], client_tiers = []\<rparr>"

text \<open>
  The expression \<^verbatim>\<open>self._rate_configs.get(tier, self._rate_configs[ClientTier.FREE])\<close>,
  which the source writes twice. Python evaluates the default argument first, so a
  configuration without the FREE tier raises \<^verbatim>\<open>KeyError\<close> whatever the tier.
\<close>

definition config_for :: "RateLimiter \<Rightarrow> ClientTier \<Rightarrow> py_error + RateLimitConfig" where
  "config_for L tier =
     (case rate_configs L FREE of
        None \<Rightarrow> Inl KeyError
      | Some d \<Rightarrow> Inr (case rate_configs L tier of None \<Rightarrow> d | Some c \<Rightarrow> c))"

text \<open>
  \<open>now\<close> is the reading the \<^verbatim>\<open>TokenBucket\<close> constructor takes for \<^verbatim>\<open>last_refill\<close>; it is
  used only when a bucket is created.
\<close>

definition get_or_create_bucket ::
    "RateLimiter \<Rightarrow> string \<Rightarrow> ClientTier \<Rightarrow> real \<Rightarrow> py_error + RateLimiter \<times> TokenBucket" where
  "get_or_create_bucket L client_id tier now =
     (case map_of (buckets L) client_id of
        Some b \<Rightarrow> Inr (L, b)
      | None \<Rightarrow>
          (case config_for L tier of
             Inl e \<Rightarrow> Inl e
           | Inr config \<Rightarrow>
               (let b = \<lparr>tokens = of_int (RateLimitConfig.max_tokens config),
                         max_tokens = RateLimitConfig.max_tokens config,
                         refill_rate = tokens_per_second config,
                         last_refill = now\<rparr>
                in Inr (L\<lparr>buckets := AList.update client_id b (buckets L),
                          client_tiers := AList.update client_id tier (client_tiers L)\<rparr>, b))))"

text \<open>
  Lines 106 to 111 of \<^verbatim>\<open>check_rate_limit\<close>: the in-place update of the bucket when the
  stored tier differs from the supplied one. It returns the bucket and the tier table.
\<close>

definition update_tier ::
    "RateLimiter \<Rightarrow> string \<Rightarrow> ClientTier \<Rightarrow> TokenBucket \<Rightarrow>
     py_error + TokenBucket \<times> (string \<times> ClientTier) list" where
  "update_tier L client_id tier bucket =
     (if map_of (client_tiers L) client_id \<noteq> Some tier then
        (case config_for L tier of
           Inl e \<Rightarrow> Inl e
         | Inr config \<Rightarrow>
             Inr (bucket\<lparr>max_tokens := RateLimitConfig.max_tokens config,
                         refill_rate := tokens_per_second config\<rparr>,
                  AList.update client_id tier (client_tiers L)))
      else Inr (bucket, client_tiers L))"

text \<open>
  \<open>now0\<close> is read by the bucket constructor (if a bucket is created), \<open>now1\<close> by the
  refill inside \<^verbatim>\<open>consume\<close>, \<open>now2\<close> by the refill inside \<^verbatim>\<open>available_tokens\<close>.
\<close>

definition check_rate_limit ::
    "RateLimiter \<Rightarrow> string \<Rightarrow> ClientTier \<Rightarrow> int \<Rightarrow> real \<Rightarrow> real \<Rightarrow> real \<Rightarrow>
     RateLimiter \<times> (py_error + bool \<times> real \<times> real)" where
  "check_rate_limit L client_id tier token_cost now0 now1 now2 =
     (case get_or_create_bucket L client_id tier now0 of
        Inl e \<Rightarrow> (L, Inl e)
      | Inr (L1, bucket) \<Rightarrow>
          (case update_tier L1 client_id tier bucket of
             Inl e \<Rightarrow> (L1, Inl e)
           | Inr (bucket1, tiers1) \<Rightarrow>
               (case consume bucket1 token_cost now1 of
                  (bucket2, Inl e) \<Rightarrow>
                    (L1\<lparr>buckets := AList.update client_id bucket2 (buckets L1),
                        client_tiers := tiers1\<rparr>, Inl e)
                | (bucket2, Inr (allowed, retry_after)) \<Rightarrow>
                    (case available_tokens bucket2 now2 of
                       (bucket3, remaining) \<Rightarrow>
                         (L1\<lparr>buckets := AList.update client_id bucket3 (buckets L1),
                             client_tiers := tiers1\<rparr>,
                          Inr (allowed, retry_after, remaining))))))"

text \<open>
  The dict that \<^verbatim>\<open>get_client_status\<close> returns, as a record; the fields carry the prefix
  \<open>st_\<close> because \<open>max_tokens\<close>, \<open>refill_rate\<close> and \<open>tokens_per_second\<close> are fields of other
  records already.
\<close>

record ClientStatus =
  st_client_id :: string
  st_tier :: ClientTier
  st_available_tokens :: real
  st_max_tokens :: int
  st_refill_rate :: real
  st_tokens_per_second :: real

definition get_client_status ::
    "RateLimiter \<Rightarrow> string \<Rightarrow> real \<Rightarrow> RateLimiter \<times> ClientStatus option" where
  "get_client_status L client_id now =
     (case map_of (buckets L) client_id of
        None \<Rightarrow> (L, None)
      | Some bucket \<Rightarrow>
          (let tier = (case map_of (client_tiers L) client_id of None \<Rightarrow> FREE | Some t \<Rightarrow> t);
               config = rate_configs L tier;
               (bucket1, avail) = available_tokens bucket now
           in (L\<lparr>buckets := AList.update client_id bucket1 (buckets L)\<rparr>,
               Some \<lparr>st_client_id = client_id,
                     st_tier = tier,
                     st_available_tokens = avail,
                     st_max_tokens = max_tokens bucket1,
                     st_refill_rate = refill_rate bucket1,
                     st_tokens_per_second =
                       (case config of Some c \<Rightarrow> tokens_per_second c | None \<Rightarrow> 0)\<rparr>)))"

definition reset_client :: "RateLimiter \<Rightarrow> string \<Rightarrow> real \<Rightarrow> RateLimiter \<times> bool" where
  "reset_client L client_id now =
     (case map_of (buckets L) client_id of
        Some bucket \<Rightarrow>
          (L\<lparr>buckets :=
               AList.update client_id
                 (bucket\<lparr>tokens := of_int (max_tokens bucket), last_refill := now\<rparr>)
                 (buckets L)\<rparr>, True)
      | None \<Rightarrow> (L, False))"

definition remove_client :: "RateLimiter \<Rightarrow> string \<Rightarrow> RateLimiter \<times> bool" where
  "remove_client L client_id =
     (case map_of (buckets L) client_id of
        Some bucket \<Rightarrow>
          (L\<lparr>buckets := AList.delete client_id (buckets L),
              client_tiers := AList.delete client_id (client_tiers L)\<rparr>, True)
      | None \<Rightarrow> (L, False))"

definition get_all_clients :: "RateLimiter \<Rightarrow> string list" where
  "get_all_clients L = map fst (buckets L)"

definition cleanup_inactive :: "RateLimiter \<Rightarrow> real \<Rightarrow> real \<Rightarrow> RateLimiter \<times> int" where
  "cleanup_inactive L max_idle_seconds now =
     (let to_remove =
            map fst (filter (\<lambda>(client_id, bucket). now - last_refill bucket > max_idle_seconds)
                       (buckets L))
      in (L\<lparr>buckets := fold AList.delete to_remove (buckets L),
             client_tiers := fold AList.delete to_remove (client_tiers L)\<rparr>,
          int (length to_remove)))"

section \<open>circuit\_breaker.py\<close>

datatype CircuitState = CLOSED | OPEN | HALF_OPEN

record CircuitStats =
  total_requests :: int
  successful_requests :: int
  failed_requests :: int
  consecutive_failures :: int
  consecutive_successes :: int
  last_failure_time :: "real option"
  last_success_time :: "real option"
  state_changed_at :: real

text \<open>The dataclass defaults; \<open>now\<close> is the reading of the \<^verbatim>\<open>default_factory\<close>.\<close>

definition CircuitStats_init :: "real \<Rightarrow> CircuitStats" where
  "CircuitStats_init now =
     \<lparr>total_requests = 0, successful_requests = 0, failed_requests = 0,
      consecutive_failures = 0, consecutive_successes = 0,
      last_failure_time = None, last_success_time = None, state_changed_at = now\<rparr>"

record CircuitBreaker =
  service_name :: string
  config :: CircuitBreakerConfig
  state :: CircuitState
  stats :: CircuitStats
  half_open_count :: int

definition CircuitBreaker_init :: "string \<Rightarrow> CircuitBreakerConfig \<Rightarrow> real \<Rightarrow> CircuitBreaker" where
  "CircuitBreaker_init svc cfg now =
     \<lparr>service_name = svc, config = cfg, state = CLOSED,
      stats = CircuitStats_init now, half_open_count = 0\<rparr>"

definition should_transition_to_half_open :: "CircuitBreaker \<Rightarrow> real \<Rightarrow> bool" where
  "should_transition_to_half_open b now =
     (if state b \<noteq> OPEN then False
      else
        (case last_failure_time (stats b) of
           None \<Rightarrow> True
         | Some t \<Rightarrow> (let elapsed = now - t in elapsed \<ge> recovery_timeout (config b))))"

definition transition_to :: "CircuitBreaker \<Rightarrow> CircuitState \<Rightarrow> real \<Rightarrow> CircuitBreaker" where
  "transition_to b new_state now =
     (let b1 = b\<lparr>state := new_state, stats := (stats b)\<lparr>state_changed_at := now\<rparr>\<rparr> in
      if new_state = CLOSED then b1\<lparr>stats := (stats b1)\<lparr>consecutive_failures := 0\<rparr>\<rparr>
      else if new_state = HALF_OPEN then
        b1\<lparr>half_open_count := 0, stats := (stats b1)\<lparr>consecutive_successes := 0\<rparr>\<rparr>
      else b1)"

text \<open>
  \<open>now1\<close> is read by the timer check, \<open>now2\<close> by the transition, \<open>now3\<close> by the OPEN branch
  for its message. \<^verbatim>\<open>if self._stats.last_failure_time:\<close> is false for \<^verbatim>\<open>None\<close> and for
  \<^verbatim>\<open>0.0\<close>.
\<close>

definition can_execute ::
    "CircuitBreaker \<Rightarrow> real \<Rightarrow> real \<Rightarrow> real \<Rightarrow> CircuitBreaker \<times> bool \<times> rejection option" where
  "can_execute b now1 now2 now3 =
     (let b1 = (if should_transition_to_half_open b now1
                then (transition_to b HALF_OPEN now2)\<lparr>half_open_count := 0\<rparr>
                else b)
      in if state b1 = CLOSED then (b1, True, None)
         else if state b1 = OPEN then
           (let time_until_retry =
                  (case last_failure_time (stats b1) of
                     None \<Rightarrow> recovery_timeout (config b1)
                   | Some t \<Rightarrow>
                       if t = 0 then recovery_timeout (config b1)
                       else max 0 (recovery_timeout (config b1) - (now3 - t)))
            in (b1, False, Some (CircuitOpenReason (service_name b1) time_until_retry)))
         else if half_open_count b1 < half_open_requests (config b1) then
           (b1\<lparr>half_open_count := half_open_count b1 + 1\<rparr>, True, None)
         else (b1, False, Some (HalfOpenReason (service_name b1))))"

text \<open>\<open>now1\<close> stamps the event, \<open>now2\<close> is read by the transition if there is one.\<close>

definition record_success :: "CircuitBreaker \<Rightarrow> real \<Rightarrow> real \<Rightarrow> CircuitBreaker" where
  "record_success b now1 now2 =
     (let s = stats b;
          b1 = b\<lparr>stats := s\<lparr>total_requests := total_requests s + 1,
                             successful_requests := successful_requests s + 1,
                             consecutive_successes := consecutive_successes s + 1,
                             consecutive_failures := 0,
                             last_success_time := Some now1\<rparr>\<rparr>
      in if state b1 = HALF_OPEN then
           (if consecutive_successes (stats b1) \<ge> half_open_requests (config b1)
            then transition_to b1 CLOSED now2 else b1)
         else b1)"

definition record_failure :: "CircuitBreaker \<Rightarrow> real \<Rightarrow> real \<Rightarrow> CircuitBreaker" where
  "record_failure b now1 now2 =
     (let s = stats b;
          b1 = b\<lparr>stats := s\<lparr>total_requests := total_requests s + 1,
                             failed_requests := failed_requests s + 1,
                             consecutive_failures := consecutive_failures s + 1,
                             consecutive_successes := 0,
                             last_failure_time := Some now1\<rparr>\<rparr>
      in if state b1 = HALF_OPEN then transition_to b1 OPEN now2
         else if state b1 = CLOSED then
           (if consecutive_failures (stats b1) \<ge> failure_threshold (config b1)
            then transition_to b1 OPEN now2 else b1)
         else b1)"

definition reset :: "CircuitBreaker \<Rightarrow> real \<Rightarrow> CircuitBreaker" where
  "reset b now = b\<lparr>state := CLOSED, stats := CircuitStats_init now, half_open_count := 0\<rparr>"

section \<open>config.py\<close>

text \<open>
  \<^verbatim>\<open>EndpointConfig\<close> and \<^verbatim>\<open>UpstreamServiceConfig\<close> are declared in models.py and
  \<^verbatim>\<open>GatewayConfig\<close> in config.py; of the latter the model keeps the fields the request
  path reads.
\<close>

record EndpointConfig =
  path_pattern :: string
  token_cost :: int

record UpstreamServiceConfig =
  name :: string
  base_url :: string
  timeout :: real
  circuit_breaker :: CircuitBreakerConfig
  health_check_path :: "string option"
  health_check_interval :: real

record GatewayConfig =
  rate_limits :: "ClientTier \<rightharpoonup> RateLimitConfig"
  endpoint_costs :: "EndpointConfig list"
  upstream_services :: "(string \<times> UpstreamServiceConfig) list"
  client_id_header :: string
  fallback_to_ip :: bool

section \<open>Requests, responses and Python's conversions\<close>

text \<open>What the gateway reads of a FastAPI request.\<close>

record Request =
  req_method :: string
  url_path :: string
  url_query :: string
  req_headers :: "(string \<times> string) list"
  req_body :: string
  client_host :: "string option"

text \<open>
  A response body: raw bytes; the JSON object of an error answer, as its label and the
  exception whose text is the detail; or the JSON of a \<^verbatim>\<open>RateLimitResponse\<close> (error,
  retry\_after, remaining\_tokens). A \<open>Response\<close> is the arguments of its constructor; the
  headers that the framework adds by itself are not modelled.
\<close>

datatype content =
    Bytes string
  | ErrorJson string py_error
  | RateLimitJson string real real

record Response =
  content :: content
  status_code :: int
  headers :: "(string \<times> string) list"

text \<open>\<^verbatim>\<open>str.lower\<close> on ASCII letters, and \<^verbatim>\<open>str.startswith\<close>.\<close>

definition lower_char :: "char \<Rightarrow> char" where
  "lower_char c =
     (case map_of (zip ''ABCDEFGHIJKLMNOPQRSTUVWXYZ'' ''abcdefghijklmnopqrstuvwxyz'') c of
        Some d \<Rightarrow> d
      | None \<Rightarrow> c)"

definition lower :: "string \<Rightarrow> string" where
  "lower s = map lower_char s"

definition startswith :: "string \<Rightarrow> string \<Rightarrow> bool" where
  "startswith s p = (take (length p) s = p)"

text \<open>
  \<^verbatim>\<open>s.encode("latin-1")\<close> succeeds when every character of \<open>s\<close> is below U+0100. In
  UTF-8 those are the characters whose bytes are all below \<open>0xC4\<close>.
\<close>

definition latin1_encodable :: "string \<Rightarrow> bool" where
  "latin1_encodable s = list_all (\<lambda>c. (of_char c :: nat) < 196) s"

text \<open>
  The constructor of Starlette's \<^verbatim>\<open>Response\<close> encodes every header, the lower-cased
  name and then the value, in the order of the dict, and raises \<^verbatim>\<open>UnicodeEncodeError\<close>
  at the first text that does not encode.
\<close>

fun first_unencodable :: "(string \<times> string) list \<Rightarrow> string option" where
  "first_unencodable [] = None"
| "first_unencodable ((k, v) # hs) =
     (if \<not> latin1_encodable (lower k) then Some (lower k)
      else if \<not> latin1_encodable v then Some v
      else first_unencodable hs)"

definition Response_init ::
    "content \<Rightarrow> int \<Rightarrow> (string \<times> string) list \<Rightarrow> py_error + Response" where
  "Response_init c sc hs =
     (case first_unencodable hs of
        Some obj \<Rightarrow> Inl (UnicodeEncodeError obj)
      | None \<Rightarrow> Inr \<lparr>content = c, status_code = sc, headers = hs\<rparr>)"

text \<open>
  A dict comprehension \<^verbatim>\<open>{k: v for k, v in items}\<close>: a key that comes again keeps its
  place and takes the later value.
\<close>

definition dict_of :: "(string \<times> string) list \<Rightarrow> (string \<times> string) list" where
  "dict_of items = foldl (\<lambda>d (k, v). AList.update k v d) [] items"

text \<open>
  \<^verbatim>\<open>response.headers[key] = value\<close> on Starlette's \<^verbatim>\<open>MutableHeaders\<close>: the first header
  of that name, compared without regard to case, is replaced by the lower-cased name
  with the value and the other headers of that name are deleted; if there is none, the
  header is appended.
\<close>

fun headers_set :: "(string \<times> string) list \<Rightarrow> string \<Rightarrow> string \<Rightarrow> (string \<times> string) list" where
  "headers_set [] key val = [(lower key, val)]"
| "headers_set ((k, v) # hs) key val =
     (if lower k = lower key
      then (lower key, val) # filter (\<lambda>(k', v'). lower k' \<noteq> lower key) hs
      else (k, v) # headers_set hs key val)"

text \<open>\<^verbatim>\<open>int(x)\<close> of a float truncates toward zero.\<close>

definition py_int :: "real \<Rightarrow> int" where
  "py_int x = (if x \<ge> 0 then \<lfloor>x\<rfloor> else \<lceil>x\<rceil>)"

text \<open>\<^verbatim>\<open>str(i)\<close> of an int: its decimal digits, with a sign if negative.\<close>

function str_nat :: "nat \<Rightarrow> string" where
  "str_nat n =
     (if n < 10 then [''0123456789'' ! n]
      else str_nat (n div 10) @ [''0123456789'' ! (n mod 10)])"
  by pat_completeness auto
termination
  by (relation "measure (\<lambda>n. n)") auto

declare str_nat.simps [simp del]

definition str_int :: "int \<Rightarrow> string" where
  "str_int i = (if i < 0 then CHR ''-'' # str_nat (nat (- i)) else str_nat (nat i))"

text \<open>Starlette's \<^verbatim>\<open>Headers.get\<close> compares header names without regard to case.\<close>

definition headers_get :: "(string \<times> string) list \<Rightarrow> string \<Rightarrow> string option" where
  "headers_get hs key = map_of (map (\<lambda>(k, v). (lower k, v)) hs) (lower key)"

section \<open>router.py\<close>

text \<open>The registry of circuit\_breaker.py, which the router consults.\<close>

record CircuitBreakerRegistry =
  breakers :: "(string \<times> CircuitBreaker) list"

definition get_or_create ::
    "CircuitBreakerRegistry \<Rightarrow> string \<Rightarrow> CircuitBreakerConfig \<Rightarrow> real \<Rightarrow>
     CircuitBreakerRegistry \<times> CircuitBreaker" where
  "get_or_create reg svc cfg now =
     (case map_of (breakers reg) svc of
        Some b \<Rightarrow> (reg, b)
      | None \<Rightarrow>
          (let b = CircuitBreaker_init svc cfg now
           in (reg\<lparr>breakers := AList.update svc b (breakers reg)\<rparr>, b)))"

text \<open>
  The arguments of \<^verbatim>\<open>self._client.request\<close>, what the gateway reads of the response, and
  the HTTP client, which is represented by the calls issued through it, oldest first.
\<close>

record UpstreamRequest =
  up_method :: string
  up_url :: string
  up_headers :: "(string \<times> string) list"
  up_content :: string
  up_timeout :: real

record UpstreamResponse =
  up_status_code :: int
  up_resp_headers :: "(string \<times> string) list"
  up_resp_content :: string

record AsyncClient =
  sent :: "UpstreamRequest list"

text \<open>
  \<open>route_patterns\<close> keeps the source of each pattern; \<open>re_match p s\<close> stands for Python's
  \<^verbatim>\<open>re.match(p, s)\<close> having a match. The attribute \<^verbatim>\<open>_endpoint_costs\<close> is
  \<open>router_endpoint_costs\<close>, the name \<open>endpoint_costs\<close> being a field of the configuration.
  \<open>client\<close> is \<open>None\<close> until the router is started.
\<close>

record RequestRouter =
  services :: "(string \<times> UpstreamServiceConfig) list"
  router_endpoint_costs :: "EndpointConfig list"
  route_patterns :: "(string \<times> string) list"
  client :: "AsyncClient option"

definition hop_by_hop :: "string list" where
  "hop_by_hop = [''connection'', ''keep-alive'', ''proxy-authenticate'',
                 ''proxy-authorization'', ''te'', ''trailers'', ''transfer-encoding'', ''upgrade'']"

fun first_match :: "(string \<Rightarrow> bool) \<Rightarrow> (string \<times> 'a) list \<Rightarrow> 'a option" where
  "first_match m [] = None"
| "first_match m ((p, v) # rest) = (if m p then Some v else first_match m rest)"

definition resolve_service ::
    "(string \<Rightarrow> string \<Rightarrow> bool) \<Rightarrow> RequestRouter \<Rightarrow> string \<Rightarrow> string option" where
  "resolve_service re_match R path =
     (case first_match (\<lambda>pattern. re_match pattern path) (route_patterns R) of
        Some service \<Rightarrow> Some service
      | None \<Rightarrow> (if map_of (services R) ''default'' \<noteq> None then Some ''default'' else None))"

text \<open>
  Lines 143 to 170 of \<^verbatim>\<open>proxy_request\<close>: the upstream call that is built from the
  request. \<open>urljoin\<close> stands for \<^verbatim>\<open>urllib.parse.urljoin\<close>.
\<close>

definition build_call ::
    "(string \<Rightarrow> string \<Rightarrow> string) \<Rightarrow> UpstreamServiceConfig \<Rightarrow> Request \<Rightarrow> UpstreamRequest" where
  "build_call urljoin service_config request =
     (let upstream_url =
            urljoin (base_url service_config)
              (url_path request @
                 (if url_query request \<noteq> [] then ''?'' @ url_query request else []));
          hdrs = dict_of (filter (\<lambda>(k, v). lower k \<notin> set hop_by_hop \<and> lower k \<noteq> ''host'')
                            (req_headers request));
          body = req_body request
      in \<lparr>up_method = req_method request, up_url = upstream_url, up_headers = hdrs,
          up_content = body, up_timeout = timeout service_config\<rparr>)"

text \<open>
  Lines 175 to 178: the headers of the downstream response, as the proxy passes them to
  the constructor.
\<close>

definition response_headers_of :: "UpstreamResponse \<Rightarrow> (string \<times> string) list" where
  "response_headers_of upstream_response =
     dict_of (filter (\<lambda>(k, v). lower k \<notin> set hop_by_hop) (up_resp_headers upstream_response))"

text \<open>
  Lines 162 to 194: the \<^verbatim>\<open>try\<close> block. The call is appended to the client's record of
  issued requests; \<open>upstream\<close> is the outcome the HTTP client reports for it. \<open>t4\<close> and
  \<open>t5\<close> are the readings of the breaker's first recording call. The block also holds
  \<^verbatim>\<open>record_success\<close> and the construction of the response, so an exception of that
  construction reaches \<^verbatim>\<open>except Exception\<close>, which records a failure, with the
  readings \<open>t6\<close> and \<open>t7\<close>, and raises it again.
\<close>

definition forward_upstream ::
    "(string \<Rightarrow> string \<Rightarrow> string) \<Rightarrow> (UpstreamRequest \<Rightarrow> httpx_error + UpstreamResponse) \<Rightarrow>
     AsyncClient \<Rightarrow> string \<Rightarrow> UpstreamServiceConfig \<Rightarrow> CircuitBreaker \<Rightarrow> Request \<Rightarrow>
     real \<Rightarrow> real \<Rightarrow> real \<Rightarrow> real \<Rightarrow> AsyncClient \<times> CircuitBreaker \<times> (py_error + Response)" where
  "forward_upstream urljoin upstream c target service_config circuit request t4 t5 t6 t7 =
     (let call = build_call urljoin service_config request;
          c1 = c\<lparr>sent := sent c @ [call]\<rparr>
      in case upstream call of
           Inr upstream_response \<Rightarrow>
             (let circuit1 = record_success circuit t4 t5;
                  response_headers = response_headers_of upstream_response
              in case Response_init (Bytes (up_resp_content upstream_response))
                        (up_status_code upstream_response) response_headers of
                   Inr response \<Rightarrow> (c1, circuit1, Inr response)
                 | Inl e \<Rightarrow> (c1, record_failure circuit1 t6 t7, Inl e))
         | Inl TimeoutException \<Rightarrow>
             (c1, record_failure circuit t4 t5,
              Inl (UpstreamTimeoutError (''Timeout connecting to '' @ target)))
         | Inl ConnectError \<Rightarrow>
             (c1, record_failure circuit t4 t5,
              Inl (UpstreamConnectionError (''Cannot connect to '' @ target)))
         | Inl e \<Rightarrow> (c1, record_failure circuit t4 t5, Inl (ClientException e)))"

text \<open>
  Line 127: \<^verbatim>\<open>service_name or self.resolve_service(request.url.path)\<close>; an empty name is
  falsy.
\<close>

definition target_service ::
    "(string \<Rightarrow> string \<Rightarrow> bool) \<Rightarrow> RequestRouter \<Rightarrow> Request \<Rightarrow> string option \<Rightarrow> string option" where
  "target_service re_match R request service_arg =
     (case service_arg of
        Some s \<Rightarrow> if s \<noteq> [] then Some s else resolve_service re_match R (url_path request)
      | None \<Rightarrow> resolve_service re_match R (url_path request))"

text \<open>
  \<open>t0\<close> is read if the registry creates the breaker, \<open>t1\<close>, \<open>t2\<close>, \<open>t3\<close> by
  \<^verbatim>\<open>can_execute\<close>, \<open>t4\<close> to \<open>t7\<close> by the \<^verbatim>\<open>try\<close> block. The registry is shared
  with the rest of the gateway, so it is passed in and returned beside the router.
\<close>

definition proxy_request ::
    "(string \<Rightarrow> string \<Rightarrow> bool) \<Rightarrow> (string \<Rightarrow> string \<Rightarrow> string) \<Rightarrow>
     (UpstreamRequest \<Rightarrow> httpx_error + UpstreamResponse) \<Rightarrow>
     RequestRouter \<Rightarrow> CircuitBreakerRegistry \<Rightarrow> Request \<Rightarrow> string option \<Rightarrow>
     real \<Rightarrow> real \<Rightarrow> real \<Rightarrow> real \<Rightarrow> real \<Rightarrow> real \<Rightarrow> real \<Rightarrow> real \<Rightarrow>
     (RequestRouter \<times> CircuitBreakerRegistry) \<times> (py_error + Response)" where
  "proxy_request re_match urljoin upstream R reg request service_arg t0 t1 t2 t3 t4 t5 t6 t7 =
     (case client R of
        None \<Rightarrow> ((R, reg), Inl (RuntimeError ''Router not started''))
      | Some c \<Rightarrow>
          (case target_service re_match R request service_arg of
             None \<Rightarrow> ((R, reg), Inl (ValueError ''Unknown service: None''))
           | Some target \<Rightarrow>
               (case (if target = [] then None else map_of (services R) target) of
                  None \<Rightarrow> ((R, reg), Inl (ValueError (''Unknown service: '' @ target)))
                | Some service_config \<Rightarrow>
                    (case get_or_create reg target (circuit_breaker service_config) t0 of
                       (reg1, circuit) \<Rightarrow>
                         (case can_execute circuit t1 t2 t3 of
                            (circuit1, allowed, reason) \<Rightarrow>
                              (if \<not> allowed then
                                 ((R, reg1\<lparr>breakers := AList.update target circuit1 (breakers reg1)\<rparr>),
                                  Inl (CircuitOpenError reason))
                               else
                                 (case forward_upstream urljoin upstream c target service_config
                                         circuit1 request t4 t5 t6 t7 of
                                    (c1, circuit2, result) \<Rightarrow>
                                      ((R\<lparr>client := Some c1\<rparr>,
                                        reg1\<lparr>breakers := AList.update target circuit2 (breakers reg1)\<rparr>),
                                       result))))))))"

section \<open>main.py\<close>

text \<open>
  The endpoint \<^verbatim>\<open>proxy_request\<close> of main.py, under the name \<open>main_proxy_request\<close>.
  \<^verbatim>\<open>except ValueError\<close> catches every instance of \<^verbatim>\<open>ValueError\<close> that leaves the router,
  the router's own and any other. An exception the endpoint does not catch goes on to
  the framework.
\<close>

definition main_proxy_request ::
    "(string \<Rightarrow> string \<Rightarrow> bool) \<Rightarrow> (string \<Rightarrow> string \<Rightarrow> string) \<Rightarrow>
     (UpstreamRequest \<Rightarrow> httpx_error + UpstreamResponse) \<Rightarrow>
     RequestRouter option \<Rightarrow> CircuitBreakerRegistry \<Rightarrow> Request \<Rightarrow>
     real \<Rightarrow> real \<Rightarrow> real \<Rightarrow> real \<Rightarrow> real \<Rightarrow> real \<Rightarrow> real \<Rightarrow> real \<Rightarrow>
     (RequestRouter option \<times> CircuitBreakerRegistry) \<times> (py_error + Response)" where
  "main_proxy_request re_match urljoin upstream request_router reg request t0 t1 t2 t3 t4 t5 t6 t7 =
     (case request_router of
        None \<Rightarrow> ((None, reg), Inl (HTTPException 503 ''Router not available''))
      | Some R \<Rightarrow>
          (case proxy_request re_match urljoin upstream R reg request None
                  t0 t1 t2 t3 t4 t5 t6 t7 of
             ((R1, reg1), result) \<Rightarrow>
               ((Some R1, reg1),
                (case result of
                   Inr response \<Rightarrow> Inr response
                 | Inl (CircuitOpenError reason) \<Rightarrow>
                     Inr \<lparr>content = ErrorJson ''Service unavailable'' (CircuitOpenError reason),
                          status_code = 503,
                          headers = [(''Retry-After'', ''30'')]\<rparr>
                 | Inl (UpstreamTimeoutError msg) \<Rightarrow>
                     Inr \<lparr>content = ErrorJson ''Gateway timeout'' (UpstreamTimeoutError msg),
                          status_code = 504, headers = []\<rparr>
                 | Inl (UpstreamConnectionError msg) \<Rightarrow>
                     Inr \<lparr>content = ErrorJson ''Bad gateway'' (UpstreamConnectionError msg),
                          status_code = 502, headers = []\<rparr>
                 | Inl (ValueError msg) \<Rightarrow> Inl (HTTPException 404 msg)
                 | Inl (ClientException (ClientValueError msg)) \<Rightarrow> Inl (HTTPException 404 msg)
                 | Inl e \<Rightarrow> if is_ValueError e then Inl (HTTPExceptionOf 404 e) else Inl e))))"

section \<open>middleware.py\<close>

definition get_client_id :: "GatewayConfig \<Rightarrow> Request \<Rightarrow> string" where
  "get_client_id cfg request =
     (let client_id = headers_get (req_headers request) (client_id_header cfg);
          client_id1 =
            (if (client_id = None \<or> client_id = Some []) \<and> fallback_to_ip cfg
             then (case client_host request of Some h \<Rightarrow> Some h | None \<Rightarrow> Some ''unknown'')
             else client_id)
      in case client_id1 of
           None \<Rightarrow> ''anonymous''
         | Some s \<Rightarrow> if s = [] then ''anonymous'' else s)"

fun first_cost :: "(string \<Rightarrow> bool) \<Rightarrow> EndpointConfig list \<Rightarrow> int option" where
  "first_cost m [] = None"
| "first_cost m (endpoint # rest) =
     (if m (path_pattern endpoint) then Some (token_cost endpoint) else first_cost m rest)"

definition get_token_cost :: "(string \<Rightarrow> string \<Rightarrow> bool) \<Rightarrow> GatewayConfig \<Rightarrow> string \<Rightarrow> int" where
  "get_token_cost re_match cfg path =
     (case first_cost (\<lambda>pattern. re_match pattern path) (endpoint_costs cfg) of
        Some cost \<Rightarrow> cost
      | None \<Rightarrow> 1)"

definition is_exempt_path :: "string \<Rightarrow> bool" where
  "is_exempt_path path =
     list_ex (\<lambda>p. startswith path p) [''/health'', ''/metrics'', ''/ready'', ''/_internal'']"

text \<open>
  Lines 122 to 136 of \<^verbatim>\<open>dispatch\<close>: the 429 response. \<open>wall_now\<close> is the reading of
  \<^verbatim>\<open>time.time()\<close> in the \<^verbatim>\<open>X-RateLimit-Reset\<close> header.
\<close>

definition rate_limited_response :: "real \<Rightarrow> real \<Rightarrow> real \<Rightarrow> Response" where
  "rate_limited_response retry_after remaining wall_now =
     \<lparr>content = RateLimitJson ''Rate limit exceeded'' retry_after remaining,
      status_code = 429,
      headers = [(''Content-Type'', ''application/json''),
                 (''Retry-After'', str_int (py_int retry_after + 1)),
                 (''X-RateLimit-Remaining'', str_int (py_int remaining)),
                 (''X-RateLimit-Reset'', str_int (py_int (wall_now + retry_after)))]\<rparr>"

text \<open>
  \<open>now0\<close>, \<open>now1\<close>, \<open>now2\<close> are the readings of \<^verbatim>\<open>check_rate_limit\<close>. The records that
  \<^verbatim>\<open>dispatch\<close> sends to the metrics collector and to the logger do not reach the
  response and are left out, with the wall-clock readings that only they use.
  \<open>call_next\<close> is the handler behind the middleware.
\<close>

definition dispatch ::
    "(string \<Rightarrow> string \<Rightarrow> bool) \<Rightarrow> GatewayConfig \<Rightarrow> (string \<Rightarrow> ClientTier) \<Rightarrow>
     RateLimiter \<Rightarrow> Request \<Rightarrow> (Request \<Rightarrow> Response) \<Rightarrow>
     real \<Rightarrow> real \<Rightarrow> real \<Rightarrow> real \<Rightarrow> RateLimiter \<times> (py_error + Response)" where
  "dispatch re_match cfg tier_resolver L request call_next now0 now1 now2 wall_now =
     (let path = url_path request;
          client_id = get_client_id cfg request
      in if is_exempt_path path then (L, Inr (call_next request))
         else
           (let cost = get_token_cost re_match cfg path;
                tier = tier_resolver client_id
            in case check_rate_limit L client_id tier cost now0 now1 now2 of
                 (L1, Inl e) \<Rightarrow> (L1, Inl e)
               | (L1, Inr (allowed, retry_after, remaining)) \<Rightarrow>
                   if \<not> allowed then (L1, Inr (rate_limited_response retry_after remaining wall_now))
                   else
                     (let response = call_next request
                      in (L1, Inr (response\<lparr>headers :=
                                      headers_set (headers response) ''X-RateLimit-Remaining''
                                        (str_int (py_int remaining))\<rparr>)))))"

section \<open>Runs of operations and invariants\<close>

text \<open>
  The operations a caller can apply to a breaker, each with its clock readings, and
  their effect in sequence.
\<close>

datatype breaker_op =
    CanExecute real real real
  | RecordSuccess real real
  | RecordFailure real real
  | Reset real

fun breaker_step :: "CircuitBreaker \<Rightarrow> breaker_op \<Rightarrow> CircuitBreaker" where
  "breaker_step b (CanExecute n1 n2 n3) = fst (can_execute b n1 n2 n3)"
| "breaker_step b (RecordSuccess n1 n2) = record_success b n1 n2"
| "breaker_step b (RecordFailure n1 n2) = record_failure b n1 n2"
| "breaker_step b (Reset n) = reset b n"

fun breaker_run :: "CircuitBreaker \<Rightarrow> breaker_op list \<Rightarrow> CircuitBreaker" where
  "breaker_run b [] = b"
| "breaker_run b (x # xs) = breaker_run (breaker_step b x) xs"

text \<open>Whether an operation is an admission check that admits.\<close>

fun admits :: "CircuitBreaker \<Rightarrow> breaker_op \<Rightarrow> bool" where
  "admits b (CanExecute n1 n2 n3) = fst (snd (can_execute b n1 n2 n3))"
| "admits b _ = False"

text \<open>The number of admissions along a run.\<close>

fun admissions :: "CircuitBreaker \<Rightarrow> breaker_op list \<Rightarrow> nat" where
  "admissions b [] = 0"
| "admissions b (x # xs) = (if admits b x then 1 else 0) + admissions (breaker_step b x) xs"

text \<open>The breaker is in state \<open>st\<close> after every operation of the run.\<close>

fun stays_in :: "CircuitState \<Rightarrow> CircuitBreaker \<Rightarrow> breaker_op list \<Rightarrow> bool" where
  "stays_in st b [] = True"
| "stays_in st b (x # xs) = (state (breaker_step b x) = st \<and> stays_in st (breaker_step b x) xs)"

text \<open>
  The operations of the limiter, each with its clock readings, and their effect in
  sequence.
\<close>

datatype limiter_op =
    CheckRateLimit string ClientTier int real real real
  | GetClientStatus string real
  | ResetClient string real
  | RemoveClient string
  | CleanupInactive real real

fun limiter_step :: "RateLimiter \<Rightarrow> limiter_op \<Rightarrow> RateLimiter" where
  "limiter_step L (CheckRateLimit c tier cost n0 n1 n2) =
     fst (check_rate_limit L c tier cost n0 n1 n2)"
| "limiter_step L (GetClientStatus c t) = fst (get_client_status L c t)"
| "limiter_step L (ResetClient c t) = fst (reset_client L c t)"
| "limiter_step L (RemoveClient c) = fst (remove_client L c)"
| "limiter_step L (CleanupInactive max_idle t) = fst (cleanup_inactive L max_idle t)"

text \<open>The clock readings of an operation, in the order they are taken.\<close>

fun op_times :: "limiter_op \<Rightarrow> real list" where
  "op_times (CheckRateLimit c tier cost n0 n1 n2) = [n0, n1, n2]"
| "op_times (GetClientStatus c t) = [t]"
| "op_times (ResetClient c t) = [t]"
| "op_times (RemoveClient c) = []"
| "op_times (CleanupInactive max_idle t) = [t]"

text \<open>
  The clock is monotonic: the readings of an operation that starts when the clock
  shows \<open>now\<close> do not go back. \<open>op_end\<close> is the last reading.
\<close>

definition clock_ok :: "real \<Rightarrow> limiter_op \<Rightarrow> bool" where
  "clock_ok now x = sorted (now # op_times x)"

definition op_end :: "real \<Rightarrow> limiter_op \<Rightarrow> real" where
  "op_end now x = last (now # op_times x)"

fun limiter_run :: "RateLimiter \<Rightarrow> limiter_op list \<Rightarrow> RateLimiter" where
  "limiter_run L [] = L"
| "limiter_run L (x # xs) = limiter_run (limiter_step L x) xs"

fun clock_ok_run :: "real \<Rightarrow> limiter_op list \<Rightarrow> bool" where
  "clock_ok_run now [] = True"
| "clock_ok_run now (x # xs) = (clock_ok now x \<and> clock_ok_run (op_end now x) xs)"

fun run_end :: "real \<Rightarrow> limiter_op list \<Rightarrow> real" where
  "run_end now [] = now"
| "run_end now (x # xs) = run_end (op_end now x) xs"

text \<open>
  The bucket invariant of the data model, together with what keeps it: a positive rate
  and a time stamp that is not in the future.
\<close>

definition bucket_inv :: "TokenBucket \<Rightarrow> real \<Rightarrow> bool" where
  "bucket_inv b now =
     (0 \<le> tokens b \<and> tokens b \<le> of_int (max_tokens b) \<and> 0 < refill_rate b \<and>
      last_refill b \<le> now)"

definition limiter_inv :: "RateLimiter \<Rightarrow> real \<Rightarrow> bool" where
  "limiter_inv L now = list_all (\<lambda>(c, b). bucket_inv b now) (buckets L)"

text \<open>The constraints \<^verbatim>\<open>Field(gt=0)\<close> of \<^verbatim>\<open>RateLimitConfig\<close>, for every configured tier.\<close>

definition valid_configs :: "(ClientTier \<rightharpoonup> RateLimitConfig) \<Rightarrow> bool" where
  "valid_configs rc =
     list_all (\<lambda>tier. case rc tier of
                        None \<Rightarrow> True
                      | Some cfg \<Rightarrow> 0 < tokens_per_second cfg \<and> 0 < RateLimitConfig.max_tokens cfg)
       [FREE, BASIC, PREMIUM, ENTERPRISE]"





text \<open>What a refill needs, and what it gives.\<close>

definition refillable :: "TokenBucket \<Rightarrow> real \<Rightarrow> bool" where
  "refillable b t =
     (0 \<le> tokens b \<and> 0 \<le> max_tokens b \<and> 0 < refill_rate b \<and> last_refill b \<le> t)"

text \<open>
  Rounds of polling: a status query for the client at time \<open>t\<close>, then a sweep
  \<^verbatim>\<open>cleanup_inactive(max_idle)\<close> at time \<open>now\<close>.
\<close>

fun poll_rounds :: "RateLimiter \<Rightarrow> string \<Rightarrow> (real \<times> real \<times> real) list \<Rightarrow> RateLimiter" where
  "poll_rounds L c [] = L"
| "poll_rounds L c ((t, max_idle, now) # rounds) =
     poll_rounds (fst (cleanup_inactive (fst (get_client_status L c t)) max_idle now)) c rounds"

section \<open>Sample values\<close>

text \<open>The breaker configuration of the test suite and of scenario 3 of the specification.\<close>

definition cfg0 :: CircuitBreakerConfig where
  "cfg0 = \<lparr>failure_threshold = 3, recovery_timeout = 1/2, half_open_requests = 2\<rparr>"

definition tripped :: CircuitBreaker where
  "tripped = breaker_run (CircuitBreaker_init ''svc'' cfg0 0)
               [RecordFailure 1 1, RecordFailure 2 2, RecordFailure 3 3]"

text \<open>The defaults of \<^verbatim>\<open>GatewayConfig\<close> in config.py.\<close>

definition default_config :: GatewayConfig where
  "default_config =
     \<lparr>rate_limits =
        [FREE \<mapsto> \<lparr>tokens_per_second = 1, RateLimitConfig.max_tokens = 10\<rparr>,
         BASIC \<mapsto> \<lparr>tokens_per_second = 5, RateLimitConfig.max_tokens = 50\<rparr>,
         PREMIUM \<mapsto> \<lparr>tokens_per_second = 20, RateLimitConfig.max_tokens = 200\<rparr>,
         ENTERPRISE \<mapsto> \<lparr>tokens_per_second = 100, RateLimitConfig.max_tokens = 1000\<rparr>],
      endpoint_costs =
        [\<lparr>path_pattern = ''^/api/v1/search.*'', token_cost = 5\<rparr>,
         \<lparr>path_pattern = ''^/api/v1/export.*'', token_cost = 10\<rparr>,
         \<lparr>path_pattern = ''^/api/v1/bulk.*'', token_cost = 20\<rparr>,
         \<lparr>path_pattern = ''^/api/v1/.*'', token_cost = 1\<rparr>],
      upstream_services =
        [(''default'',
          \<lparr>name = ''default'', base_url = ''http://localhost:9000'', timeout = 30,
           circuit_breaker =
             \<lparr>failure_threshold = 5, recovery_timeout = 30, half_open_requests = 3\<rparr>,
           health_check_path = Some ''/health'', health_check_interval = 30\<rparr>)],
      client_id_header = ''X-API-Key'',
      fallback_to_ip = True\<rparr>"

text \<open>A started router over the default services, as \<^verbatim>\<open>lifespan\<close> builds it.\<close>

definition started_router :: RequestRouter where
  "started_router =
     \<lparr>services = upstream_services default_config,
      router_endpoint_costs = endpoint_costs default_config,
      route_patterns = [],
      client = Some \<lparr>sent = []\<rparr>\<rparr>"

definition sample_request :: Request where
  "sample_request =
     \<lparr>req_method = ''GET'', url_path = ''/api/v1/items'', url_query = [],
      req_headers = [(''Host'', ''gateway''), (''X-API-Key'', ''k1'')], req_body = [],
      client_host = Some ''10.0.0.1''\<rparr>"

definition default_service :: UpstreamServiceConfig where
  "default_service =
     \<lparr>name = ''default'', base_url = ''http://localhost:9000'', timeout = 30,
      circuit_breaker = \<lparr>failure_threshold = 5, recovery_timeout = 30, half_open_requests = 3\<rparr>,
      health_check_path = Some ''/health'', health_check_interval = 30\<rparr>"

text \<open>
  An upstream that answers 200 with the header \<^verbatim>\<open>x-owner\<close> whose value is the one
  character U+0100, which is the bytes \<open>0xC4 0x80\<close> in UTF-8 and has no Latin-1 encoding.
\<close>

definition unencodable_upstream :: "UpstreamRequest \<Rightarrow> httpx_error + UpstreamResponse" where
  "unencodable_upstream call =
     Inr \<lparr>up_status_code = 200, up_resp_headers = [(''x-owner'', [CHR 0xC4, CHR 0x80])],
          up_resp_content = ''ok''\<rparr>"

text \<open>A registry whose breaker for the default service has opened after five failures.\<close>

definition open_registry :: CircuitBreakerRegistry where
  "open_registry =
     \<lparr>breakers =
        [(''default'',
          breaker_run (CircuitBreaker_init ''default'' (circuit_breaker default_service) 0)
            [RecordFailure 1 1, RecordFailure 2 2, RecordFailure 3 3, RecordFailure 4 4,
             RecordFailure 5 5])]\<rparr>"

text \<open>The breaker of that registry, written out.\<close>

definition open_breaker :: CircuitBreaker where
  "open_breaker =
     \<lparr>service_name = ''default'',
      config = \<lparr>failure_threshold = 5, recovery_timeout = 30, half_open_requests = 3\<rparr>,
      state = OPEN,
      stats = \<lparr>total_requests = 5, successful_requests = 0, failed_requests = 5,
                consecutive_failures = 5, consecutive_successes = 0,
                last_failure_time = Some 5, last_success_time = None, state_changed_at = 5\<rparr>,
      half_open_count = 0\<rparr>"

text \<open>
  A limiter with one tier of two tokens per second and capacity one, after the
  client \<open>k1\<close> has spent its only token at time 0.
\<close>

definition fast_config :: GatewayConfig where
  "fast_config = default_config
     \<lparr>rate_limits := [FREE \<mapsto> \<lparr>tokens_per_second = 2, RateLimitConfig.max_tokens = 1\<rparr>]\<rparr>"

definition spent_limiter :: RateLimiter where
  "spent_limiter =
     fst (check_rate_limit (RateLimiter_init (rate_limits fast_config)) ''k1'' FREE 1 0 0 0)"


section \<open>The token bucket\<close>

text \<open>
  C1. An admission attempt with cost \<open>c\<close> at time \<open>now\<close> on a bucket whose refill rate is
  not zero first refills: with \<open>T = min capacity (tokens + (now - last_refill) * rate)\<close>,
  the bucket's time stamp becomes \<open>now\<close>. If \<open>T \<ge> c\<close> the call returns \<open>(True, 0)\<close> and
  leaves \<open>T - c\<close> tokens; otherwise it returns \<open>(False, (c - T) / rate)\<close> and leaves the
  \<open>T\<close> tokens of the refill. Capacity and rate are not touched.
\<close>

theorem consume_refills_then_charges:
  assumes "refill_rate b \<noteq> 0"
  shows "consume b c now =
           (let T = min (of_int (max_tokens b)) (tokens b + (now - last_refill b) * refill_rate b)
            in if T \<ge> of_int c
               then (b\<lparr>tokens := T - of_int c, last_refill := now\<rparr>, Inr (True, 0))
               else (b\<lparr>tokens := T, last_refill := now\<rparr>,
                     Inr (False, (of_int c - T) / refill_rate b)))"
  using assms by (simp add: consume_def refill_def Let_def)

theorem consume_refills_then_charges_witness:
  "refill_rate \<lparr>tokens = 5, max_tokens = 10, refill_rate = 1, last_refill = 0\<rparr> \<noteq> 0 \<and>
   consume \<lparr>tokens = 5, max_tokens = 10, refill_rate = 1, last_refill = 0\<rparr> 10 2 =
     (\<lparr>tokens = 7, max_tokens = 10, refill_rate = 1, last_refill = 2\<rparr>, Inr (False, 3)) \<and>
   consume \<lparr>tokens = 5, max_tokens = 10, refill_rate = 1, last_refill = 0\<rparr> 4 2 =
     (\<lparr>tokens = 3, max_tokens = 10, refill_rate = 1, last_refill = 2\<rparr>, Inr (True, 0))"
  using consume_refills_then_charges
          [of "\<lparr>tokens = 5, max_tokens = 10, refill_rate = 1, last_refill = 0\<rparr>" 10 2]
        consume_refills_then_charges
          [of "\<lparr>tokens = 5, max_tokens = 10, refill_rate = 1, last_refill = 0\<rparr>" 4 2]
  by simp

section \<open>The circuit breaker\<close>

lemma step_config: "config (breaker_step b x) = config b"
  by (cases x)
     (auto simp: can_execute_def record_success_def record_failure_def reset_def
                 transition_to_def Let_def)

lemma step_open_has_failure_time:
  assumes "state b = OPEN \<longrightarrow> last_failure_time (stats b) \<noteq> None"
  shows "state (breaker_step b x) = OPEN \<longrightarrow> last_failure_time (stats (breaker_step b x)) \<noteq> None"
  using assms
  by (cases x)
     (auto simp: can_execute_def record_success_def record_failure_def reset_def
                 transition_to_def should_transition_to_half_open_def Let_def
           split: if_splits option.splits)

lemma run_open_has_failure_time:
  assumes "state b = OPEN \<longrightarrow> last_failure_time (stats b) \<noteq> None"
  shows "state (breaker_run b xs) = OPEN \<longrightarrow> last_failure_time (stats (breaker_run b xs)) \<noteq> None"
  using assms
proof (induction xs arbitrary: b)
  case Nil
  then show ?case by simp
next
  case (Cons x xs)
  show ?case
    using Cons.IH [OF step_open_has_failure_time [OF Cons.prems]] by simp
qed

lemmas breaker_defs =
  can_execute_def record_success_def record_failure_def reset_def transition_to_def
  should_transition_to_half_open_def CircuitBreaker_init_def CircuitStats_init_def

lemma tripped_eq:
  "tripped = \<lparr>service_name = ''svc'', config = cfg0, state = OPEN,
      stats = \<lparr>total_requests = 3, successful_requests = 0, failed_requests = 3,
        consecutive_failures = 3, consecutive_successes = 0,
        last_failure_time = Some 3, last_success_time = None, state_changed_at = 3\<rparr>,
      half_open_count = 0\<rparr>"
  by (simp add: tripped_def breaker_defs cfg0_def Let_def)

text \<open>
  C2. After any sequence of operations on a fresh breaker, an admission check that finds
  the breaker OPEN and admits the request has found a last failure time \<open>t\<close> with
  \<open>now - t \<ge> recovery_timeout\<close>, where \<open>now\<close> is the reading of the timer check, and
  it leaves the breaker HALF\_OPEN.
\<close>
theorem open_admits_only_after_timeout:
  assumes "b = breaker_run (CircuitBreaker_init svc cfg t0) ops"
    and "state b = OPEN"
    and "can_execute b now now2 now3 = (b', True, r)"
  shows "\<exists>t. last_failure_time (stats b) = Some t \<and> now - t \<ge> recovery_timeout (config b) \<and>
             state b' = HALF_OPEN"
proof -
  have "state (CircuitBreaker_init svc cfg t0) = OPEN \<longrightarrow>
        last_failure_time (stats (CircuitBreaker_init svc cfg t0)) \<noteq> None"
    by (simp add: CircuitBreaker_init_def)
  from run_open_has_failure_time [OF this, of ops] assms(1,2)
  obtain t where t: "last_failure_time (stats b) = Some t" by auto
  from assms(2,3) t show ?thesis
    by (auto simp: can_execute_def should_transition_to_half_open_def transition_to_def Let_def
             split: if_splits)
qed

theorem open_admits_only_after_timeout_witness:
  "tripped = breaker_run (CircuitBreaker_init ''svc'' cfg0 0)
               [RecordFailure 1 1, RecordFailure 2 2, RecordFailure 3 3] \<and>
   state tripped = OPEN \<and>
   fst (snd (can_execute tripped 4 4 4)) \<and>
   (\<exists>t. last_failure_time (stats tripped) = Some t \<and> 4 - t \<ge> recovery_timeout (config tripped) \<and>
        state (fst (can_execute tripped 4 4 4)) = HALF_OPEN)"
proof -
  have h2: "state tripped = OPEN" by (simp add: tripped_eq)
  have h3: "can_execute tripped 4 4 4 =
              (fst (can_execute tripped 4 4 4), True, snd (snd (can_execute tripped 4 4 4)))"
    by (simp add: tripped_eq can_execute_def should_transition_to_half_open_def
                  transition_to_def cfg0_def Let_def)
  have h4: "fst (snd (can_execute tripped 4 4 4))"
    by (simp add: tripped_eq can_execute_def should_transition_to_half_open_def
                  transition_to_def cfg0_def Let_def)
  from open_admits_only_after_timeout [OF tripped_def h2 h3] h2 h4 tripped_def
  show ?thesis by blast
qed

lemma half_open_step_count:
  assumes "state b = HALF_OPEN" and "state (breaker_step b x) = HALF_OPEN"
  shows "half_open_count (breaker_step b x) = half_open_count b + (if admits b x then 1 else 0)"
  using assms
  by (cases x)
     (auto simp: breaker_defs Let_def split: if_splits)

lemma half_open_step_bound:
  assumes "state b = HALF_OPEN"
    and "half_open_count b \<le> max 0 (half_open_requests (config b))"
  shows "half_open_count (breaker_step b x) \<le> max 0 (half_open_requests (config b))"
  using assms
  by (cases x)
     (auto simp: breaker_defs Let_def split: if_splits)

lemma run_config: "config (breaker_run b xs) = config b"
  by (induction xs arbitrary: b) (simp_all add: step_config)

lemma can_execute_config: "config (fst (can_execute b n1 n2 n3)) = config b"
  using step_config [of b "CanExecute n1 n2 n3"] by simp

lemma half_open_run_count:
  assumes "state b = HALF_OPEN" and "stays_in HALF_OPEN b xs"
  shows "half_open_count (breaker_run b xs) = half_open_count b + int (admissions b xs)"
  using assms
proof (induction xs arbitrary: b)
  case Nil
  then show ?case by simp
next
  case (Cons x xs)
  from Cons.prems have st: "state (breaker_step b x) = HALF_OPEN"
    and rest: "stays_in HALF_OPEN (breaker_step b x) xs" by simp_all
  from Cons.IH [OF st rest] half_open_step_count [OF Cons.prems(1) st]
  show ?case by simp
qed

lemma half_open_run_bound:
  assumes "state b = HALF_OPEN" and "stays_in HALF_OPEN b xs"
    and "half_open_count b \<le> max 0 (half_open_requests (config b))"
  shows "half_open_count (breaker_run b xs) \<le> max 0 (half_open_requests (config b))"
  using assms
proof (induction xs arbitrary: b)
  case Nil
  then show ?case by simp
next
  case (Cons x xs)
  from Cons.prems have st: "state (breaker_step b x) = HALF_OPEN"
    and rest: "stays_in HALF_OPEN (breaker_step b x) xs" by simp_all
  from half_open_step_bound [OF Cons.prems(1) Cons.prems(3), of x]
  have "half_open_count (breaker_step b x) \<le> max 0 (half_open_requests (config (breaker_step b x)))"
    by (simp add: step_config)
  from Cons.IH [OF st rest this] show ?case by (simp add: step_config)
qed

lemma run_stays_state:
  assumes "state b = st" and "stays_in st b xs"
  shows "state (breaker_run b xs) = st"
  using assms by (induction xs arbitrary: b) simp_all

lemma entry_step:
  assumes "state b = OPEN" and "state (breaker_step b (CanExecute n1 n2 n3)) = HALF_OPEN"
  shows "half_open_count (breaker_step b (CanExecute n1 n2 n3)) =
           (if admits b (CanExecute n1 n2 n3) then 1 else 0) \<and>
         half_open_count (breaker_step b (CanExecute n1 n2 n3)) \<le> max 0 (half_open_requests (config b))"
  using assms by (auto simp: breaker_defs Let_def split: if_splits option.splits)

text \<open>
  C3. From the admission check that takes the breaker from OPEN to HALF\_OPEN, and for
  as long as the breaker stays HALF\_OPEN, the admitted checks (the first one included)
  number at most \<open>half_open_requests\<close>, the probe counter equals their number, and
  once that number has reached \<open>half_open_requests\<close> every further check is rejected.
\<close>
theorem half_open_admissions_bounded:
  assumes "state b = OPEN"
    and "stays_in HALF_OPEN b (CanExecute n1 n2 n3 # ops)"
  shows "int (admissions b (CanExecute n1 n2 n3 # ops)) \<le> max 0 (half_open_requests (config b)) \<and>
         half_open_count (breaker_run b (CanExecute n1 n2 n3 # ops)) =
           int (admissions b (CanExecute n1 n2 n3 # ops)) \<and>
         (half_open_requests (config b) \<le> int (admissions b (CanExecute n1 n2 n3 # ops)) \<longrightarrow>
            \<not> admits (breaker_run b (CanExecute n1 n2 n3 # ops)) (CanExecute m1 m2 m3))"
proof -
  let ?e = "CanExecute n1 n2 n3"
  let ?b1 = "breaker_step b ?e"
  from assms(2) have st: "state ?b1 = HALF_OPEN" and rest: "stays_in HALF_OPEN ?b1 ops"
    by simp_all
  note e = entry_step [OF assms(1) st]
  have cnt: "half_open_count (breaker_run ?b1 ops) = int (admissions b (?e # ops))"
    using half_open_run_count [OF st rest] e by simp
  have "half_open_count ?b1 \<le> max 0 (half_open_requests (config ?b1))"
    using e by (simp add: can_execute_config)
  from half_open_run_bound [OF st rest this]
  have bnd: "half_open_count (breaker_run ?b1 ops) \<le> max 0 (half_open_requests (config b))"
    by (simp add: can_execute_config)
  have fin: "state (breaker_run ?b1 ops) = HALF_OPEN"
    by (rule run_stays_state [OF st rest])
  have cfg: "config (breaker_run ?b1 ops) = config b"
    by (simp add: run_config can_execute_config)
  have rej: "half_open_requests (config b) \<le> half_open_count (breaker_run ?b1 ops) \<longrightarrow>
          \<not> admits (breaker_run ?b1 ops) (CanExecute m1 m2 m3)"
    using fin cfg by (simp add: can_execute_def should_transition_to_half_open_def Let_def)
  from cnt bnd rej show ?thesis by simp
qed

theorem half_open_admissions_bounded_witness:
  "state tripped = OPEN \<and>
   stays_in HALF_OPEN tripped [CanExecute 4 4 4, CanExecute 5 5 5, CanExecute 6 6 6] \<and>
   admissions tripped [CanExecute 4 4 4, CanExecute 5 5 5, CanExecute 6 6 6] = 2 \<and>
   int (admissions tripped [CanExecute 4 4 4, CanExecute 5 5 5, CanExecute 6 6 6])
     \<le> max 0 (half_open_requests (config tripped)) \<and>
   \<not> admits (breaker_run tripped [CanExecute 4 4 4, CanExecute 5 5 5, CanExecute 6 6 6])
        (CanExecute 7 7 7)"
proof -
  have h1: "state tripped = OPEN" by (simp add: tripped_eq)
  have h2: "stays_in HALF_OPEN tripped [CanExecute 4 4 4, CanExecute 5 5 5, CanExecute 6 6 6]"
    by (simp add: tripped_eq breaker_defs cfg0_def Let_def)
  have h3: "admissions tripped [CanExecute 4 4 4, CanExecute 5 5 5, CanExecute 6 6 6] = 2"
    by (simp add: tripped_eq breaker_defs cfg0_def Let_def)
  have h4: "half_open_requests (config tripped) = 2" by (simp add: tripped_eq cfg0_def)
  from half_open_admissions_bounded [OF h1 h2, of 7 7 7] h1 h2 h3 h4
  show ?thesis by simp
qed

text \<open>
  C9, as amended. On an OPEN breaker \<^verbatim>\<open>record_success\<close> leaves the state OPEN, adds one
  to the total and to the successful count, zeroes the consecutive failures and stamps
  the last success time. An operation that leaves the OPEN state is either an admission
  check, which leads to HALF\_OPEN, or \<^verbatim>\<open>reset\<close>, which leads to CLOSED.
\<close>
theorem open_left_only_by_admission_or_reset:
  assumes "state b = OPEN"
  shows "state (record_success b n1 n2) = OPEN \<and>
         total_requests (stats (record_success b n1 n2)) = total_requests (stats b) + 1 \<and>
         successful_requests (stats (record_success b n1 n2)) = successful_requests (stats b) + 1 \<and>
         consecutive_failures (stats (record_success b n1 n2)) = 0 \<and>
         last_success_time (stats (record_success b n1 n2)) = Some n1 \<and>
         (state (breaker_step b x) \<noteq> OPEN \<longrightarrow>
            (\<exists>m1 m2 m3. x = CanExecute m1 m2 m3 \<and> state (breaker_step b x) = HALF_OPEN) \<or>
            (\<exists>m. x = Reset m \<and> state (breaker_step b x) = CLOSED))"
  using assms
  by (cases x)
     (auto simp: breaker_defs Let_def split: if_splits option.splits)

theorem open_left_only_by_admission_or_reset_witness:
  "state tripped = OPEN \<and>
   state (record_success tripped 4 4) = OPEN \<and>
   total_requests (stats (record_success tripped 4 4)) = 4 \<and>
   successful_requests (stats (record_success tripped 4 4)) = 1 \<and>
   consecutive_failures (stats (record_success tripped 4 4)) = 0 \<and>
   last_success_time (stats (record_success tripped 4 4)) = Some 4 \<and>
   state (breaker_step tripped (CanExecute 4 4 4)) = HALF_OPEN"
proof -
  have h1: "state tripped = OPEN" by (simp add: tripped_eq)
  have h2: "state (breaker_step tripped (CanExecute 4 4 4)) \<noteq> OPEN"
    by (simp add: tripped_eq breaker_defs cfg0_def Let_def)
  from open_left_only_by_admission_or_reset [OF h1, of 4 4 "CanExecute 4 4 4"] h1 h2
  show ?thesis by (simp add: tripped_eq)
qed

text \<open>
  C9 as stated says that only an admission check can leave the OPEN state. The breaker
  that three failures have opened is CLOSED after \<^verbatim>\<open>reset\<close>.
\<close>
theorem success_in_open_counterexample:
  "state tripped = OPEN \<and> state (breaker_step tripped (Reset 4)) = CLOSED"
  by (simp add: tripped_eq reset_def)

section \<open>The proxy\<close>

lemma can_execute_counters:
  "total_requests (stats (fst (can_execute b n1 n2 n3))) = total_requests (stats b) \<and>
   successful_requests (stats (fst (can_execute b n1 n2 n3))) = successful_requests (stats b) \<and>
   failed_requests (stats (fst (can_execute b n1 n2 n3))) = failed_requests (stats b)"
  by (simp add: can_execute_def transition_to_def Let_def)

lemma record_success_counters:
  "total_requests (stats (record_success b n1 n2)) = total_requests (stats b) + 1 \<and>
   successful_requests (stats (record_success b n1 n2)) = successful_requests (stats b) + 1 \<and>
   failed_requests (stats (record_success b n1 n2)) = failed_requests (stats b)"
  by (simp add: record_success_def transition_to_def Let_def)

lemma record_failure_counters:
  "total_requests (stats (record_failure b n1 n2)) = total_requests (stats b) + 1 \<and>
   successful_requests (stats (record_failure b n1 n2)) = successful_requests (stats b) \<and>
   failed_requests (stats (record_failure b n1 n2)) = failed_requests (stats b) + 1"
  by (simp add: record_failure_def transition_to_def Let_def)

lemma proxy_request_admitted:
  assumes "client R = Some c"
    and "target_service re_match R request service_arg = Some target"
    and "target \<noteq> []"
    and "map_of (services R) target = Some sc"
    and "get_or_create reg target (circuit_breaker sc) t0 = (reg1, circuit)"
    and "can_execute circuit t1 t2 t3 = (circuit1, True, reason)"
    and "forward_upstream urljoin upstream c target sc circuit1 request t4 t5 t6 t7 =
           (c1, circuit2, result)"
  shows "proxy_request re_match urljoin upstream R reg request service_arg t0 t1 t2 t3 t4 t5 t6 t7 =
           ((R\<lparr>client := Some c1\<rparr>,
             reg1\<lparr>breakers := AList.update target circuit2 (breakers reg1)\<rparr>), result)"
  using assms by (simp add: proxy_request_def)

lemma proxy_request_denied:
  assumes "client R = Some c"
    and "target_service re_match R request service_arg = Some target"
    and "target \<noteq> []"
    and "map_of (services R) target = Some sc"
    and "get_or_create reg target (circuit_breaker sc) t0 = (reg1, circuit)"
    and "can_execute circuit t1 t2 t3 = (circuit1, False, reason)"
  shows "proxy_request re_match urljoin upstream R reg request service_arg t0 t1 t2 t3 t4 t5 t6 t7 =
           ((R, reg1\<lparr>breakers := AList.update target circuit1 (breakers reg1)\<rparr>),
            Inl (CircuitOpenError reason))"
  using assms by (simp add: proxy_request_def)

lemma forward_upstream_cases:
  "forward_upstream urljoin upstream c target sc circuit request t4 t5 t6 t7 =
     (c\<lparr>sent := sent c @ [build_call urljoin sc request]\<rparr>,
      (case upstream (build_call urljoin sc request) of
         Inr resp \<Rightarrow>
           (case first_unencodable (response_headers_of resp) of
              None \<Rightarrow> record_success circuit t4 t5
            | Some obj \<Rightarrow> record_failure (record_success circuit t4 t5) t6 t7)
       | Inl e \<Rightarrow> record_failure circuit t4 t5),
      (case upstream (build_call urljoin sc request) of
         Inr resp \<Rightarrow>
           (case first_unencodable (response_headers_of resp) of
              None \<Rightarrow>
                Inr \<lparr>content = Bytes (up_resp_content resp), status_code = up_status_code resp,
                     headers = response_headers_of resp\<rparr>
            | Some obj \<Rightarrow> Inl (UnicodeEncodeError obj))
       | Inl TimeoutException \<Rightarrow> Inl (UpstreamTimeoutError (''Timeout connecting to '' @ target))
       | Inl ConnectError \<Rightarrow> Inl (UpstreamConnectionError (''Cannot connect to '' @ target))
       | Inl e \<Rightarrow> Inl (ClientException e)))"
  by (simp add: forward_upstream_def Response_init_def Let_def
           split: sum.splits httpx_error.splits option.splits)

lemma sample_target:
  "target_service (\<lambda>p s. False) started_router sample_request None = Some ''default''"
  by (simp add: target_service_def resolve_service_def started_router_def default_config_def)

lemma sample_service: "map_of (services started_router) ''default'' = Some default_service"
  by (simp add: started_router_def default_config_def default_service_def)

text \<open>
  What the breaker records for a request it has admitted. If the HTTP client returns a
  response, whatever its status code, and the downstream response can be built, the
  breaker kept for the service is the admitted breaker after \<^verbatim>\<open>record_success\<close>, with
  the failure count unchanged, and the proxy returns the upstream status and body. If
  the client returns a response with a header that does not encode, the breaker is the
  admitted breaker after \<^verbatim>\<open>record_success\<close> and then \<^verbatim>\<open>record_failure\<close>, and the proxy
  raises \<^verbatim>\<open>UnicodeEncodeError\<close>. If the client raises, the breaker is the admitted
  breaker after \<^verbatim>\<open>record_failure\<close>, and the proxy raises \<^verbatim>\<open>UpstreamTimeoutError\<close> for a
  timeout, \<^verbatim>\<open>UpstreamConnectionError\<close> for a connection error, and the client's own
  exception otherwise.
\<close>

lemma admitted_request_outcomes:
  assumes "client R = Some c"
    and "target_service re_match R request service_arg = Some target"
    and "target \<noteq> []"
    and "map_of (services R) target = Some sc"
    and "get_or_create reg target (circuit_breaker sc) t0 = (reg1, circuit)"
    and "can_execute circuit t1 t2 t3 = (circuit1, True, reason)"
    and "proxy_request re_match urljoin upstream R reg request service_arg t0 t1 t2 t3 t4 t5 t6 t7 =
           ((R', reg'), result)"
  shows "(case upstream (build_call urljoin sc request) of
            Inr resp \<Rightarrow>
              (case first_unencodable (response_headers_of resp) of
                 None \<Rightarrow>
                   map_of (breakers reg') target = Some (record_success circuit1 t4 t5) \<and>
                   failed_requests (stats (record_success circuit1 t4 t5)) =
                     failed_requests (stats circuit1) \<and>
                   (\<exists>r. result = Inr r \<and> status_code r = up_status_code resp \<and>
                        content r = Bytes (up_resp_content resp))
               | Some obj \<Rightarrow>
                   map_of (breakers reg') target =
                     Some (record_failure (record_success circuit1 t4 t5) t6 t7) \<and>
                   result = Inl (UnicodeEncodeError obj))
          | Inl TimeoutException \<Rightarrow>
              map_of (breakers reg') target = Some (record_failure circuit1 t4 t5) \<and>
              result = Inl (UpstreamTimeoutError (''Timeout connecting to '' @ target))
          | Inl ConnectError \<Rightarrow>
              map_of (breakers reg') target = Some (record_failure circuit1 t4 t5) \<and>
              result = Inl (UpstreamConnectionError (''Cannot connect to '' @ target))
          | Inl (ClientValueError msg) \<Rightarrow>
              map_of (breakers reg') target = Some (record_failure circuit1 t4 t5) \<and>
              result = Inl (ClientException (ClientValueError msg))
          | Inl (OtherClientError msg) \<Rightarrow>
              map_of (breakers reg') target = Some (record_failure circuit1 t4 t5) \<and>
              result = Inl (ClientException (OtherClientError msg)))"
proof -
  obtain c1 circuit2 res where fw:
    "forward_upstream urljoin upstream c target sc circuit1 request t4 t5 t6 t7 =
       (c1, circuit2, res)"
    by (cases "forward_upstream urljoin upstream c target sc circuit1 request t4 t5 t6 t7") auto
  from proxy_request_admitted [OF assms(1-6) fw] assms(7)
  have reg': "reg' = reg1\<lparr>breakers := AList.update target circuit2 (breakers reg1)\<rparr>"
    and res: "result = res" by simp_all
  have look: "map_of (breakers reg') target = Some circuit2"
    by (simp add: reg' update_conv')
  from fw [unfolded forward_upstream_cases] look res show ?thesis
    by (auto simp: record_success_counters split: sum.splits httpx_error.splits option.splits)
qed

lemma fresh_breaker_admits:
  "can_execute (CircuitBreaker_init ''default'' (circuit_breaker default_service) 0) 1 1 1 =
     (CircuitBreaker_init ''default'' (circuit_breaker default_service) 0, True, None)"
  by (simp add: breaker_defs Let_def)

lemma unencodable_forward:
  "forward_upstream (\<lambda>b p. b @ p) unencodable_upstream \<lparr>sent = []\<rparr> ''default'' default_service
     (CircuitBreaker_init ''default'' (circuit_breaker default_service) 0) sample_request 2 2 3 3 =
   (\<lparr>sent = [build_call (\<lambda>b p. b @ p) default_service sample_request]\<rparr>,
    record_failure
      (record_success (CircuitBreaker_init ''default'' (circuit_breaker default_service) 0) 2 2)
      3 3,
    Inl (UnicodeEncodeError [CHR 0xC4, CHR 0x80]))"
  by (simp add: forward_upstream_cases unencodable_upstream_def response_headers_of_def
        dict_of_def hop_by_hop_def lower_def lower_char_def latin1_encodable_def)

lemma unencodable_proxy:
  "proxy_request (\<lambda>p s. False) (\<lambda>b p. b @ p) unencodable_upstream started_router
     \<lparr>breakers = []\<rparr> sample_request None 0 1 1 1 2 2 3 3 =
   ((started_router
       \<lparr>client := Some \<lparr>sent = [build_call (\<lambda>b p. b @ p) default_service sample_request]\<rparr>\<rparr>,
     \<lparr>breakers =
        [(''default'',
          record_failure
            (record_success (CircuitBreaker_init ''default'' (circuit_breaker default_service) 0)
               2 2) 3 3)]\<rparr>),
    Inl (UnicodeEncodeError [CHR 0xC4, CHR 0x80]))"
proof -
  have h1: "client started_router = Some \<lparr>sent = []\<rparr>" by (simp add: started_router_def)
  have h3: "''default'' \<noteq> []" by simp
  have h5: "get_or_create \<lparr>breakers = []\<rparr> ''default'' (circuit_breaker default_service) 0 =
              (\<lparr>breakers = [(''default'',
                   CircuitBreaker_init ''default'' (circuit_breaker default_service) 0)]\<rparr>,
               CircuitBreaker_init ''default'' (circuit_breaker default_service) 0)"
    by (simp add: get_or_create_def Let_def)
  from proxy_request_admitted [OF h1 sample_target h3 sample_service h5 fresh_breaker_admits
         unencodable_forward]
  show ?thesis by simp
qed

text \<open>
  C4 fails on the code. The upstream call of a request that a fresh breaker admits
  returns a response, with status 200, and raises nothing; the header \<^verbatim>\<open>x-owner\<close> of
  that response does not encode in Latin-1. The proxy raises \<^verbatim>\<open>UnicodeEncodeError\<close>, the
  endpoint turns it into 404, and the breaker kept for the service has counted the one
  request as a success and as a failure.
\<close>
theorem unencodable_response_counts_success_and_failure:
  "snd (proxy_request (\<lambda>p s. False) (\<lambda>b p. b @ p) unencodable_upstream started_router
          \<lparr>breakers = []\<rparr> sample_request None 0 1 1 1 2 2 3 3) =
     Inl (UnicodeEncodeError [CHR 0xC4, CHR 0x80]) \<and>
   map (\<lambda>(svc, b). (svc, state b, total_requests (stats b), successful_requests (stats b),
                    failed_requests (stats b)))
     (breakers (snd (fst (proxy_request (\<lambda>p s. False) (\<lambda>b p. b @ p) unencodable_upstream
        started_router \<lparr>breakers = []\<rparr> sample_request None 0 1 1 1 2 2 3 3)))) =
     [(''default'', CLOSED, 2, 1, 1)] \<and>
   snd (main_proxy_request (\<lambda>p s. False) (\<lambda>b p. b @ p) unencodable_upstream
          (Some started_router) \<lparr>breakers = []\<rparr> sample_request 0 1 1 1 2 2 3 3) =
     Inl (HTTPExceptionOf 404 (UnicodeEncodeError [CHR 0xC4, CHR 0x80]))"
  by (simp add: main_proxy_request_def unencodable_proxy record_success_counters
        record_failure_counters breaker_defs default_service_def Let_def)

text \<open>
  C7. When the admission check denies a proxied request, the router raises
  \<^verbatim>\<open>CircuitOpenError\<close> with the reason and is itself unchanged, so its client has issued
  no call; the endpoint answers 503 with \<^verbatim>\<open>Retry-After: 30\<close>; and the breaker's total,
  successful and failed counts are those from before the check.
\<close>
theorem circuit_denial_is_503:
  assumes "client R = Some c"
    and "target_service re_match R request None = Some target"
    and "target \<noteq> []"
    and "map_of (services R) target = Some sc"
    and "get_or_create reg target (circuit_breaker sc) t0 = (reg1, circuit)"
    and "can_execute circuit t1 t2 t3 = (circuit1, False, reason)"
  shows "proxy_request re_match urljoin upstream R reg request None t0 t1 t2 t3 t4 t5 t6 t7 =
           ((R, reg1\<lparr>breakers := AList.update target circuit1 (breakers reg1)\<rparr>),
            Inl (CircuitOpenError reason)) \<and>
         main_proxy_request re_match urljoin upstream (Some R) reg request
             t0 t1 t2 t3 t4 t5 t6 t7 =
           ((Some R, reg1\<lparr>breakers := AList.update target circuit1 (breakers reg1)\<rparr>),
            Inr \<lparr>content = ErrorJson ''Service unavailable'' (CircuitOpenError reason),
                 status_code = 503, headers = [(''Retry-After'', ''30'')]\<rparr>) \<and>
         total_requests (stats circuit1) = total_requests (stats circuit) \<and>
         successful_requests (stats circuit1) = successful_requests (stats circuit) \<and>
         failed_requests (stats circuit1) = failed_requests (stats circuit)"
proof -
  note den = proxy_request_denied [OF assms, of urljoin upstream t4 t5 t6 t7]
  have "circuit1 = fst (can_execute circuit t1 t2 t3)" using assms(6) by simp
  then show ?thesis
    using den by (simp add: main_proxy_request_def can_execute_counters)
qed

lemma open_registry_eq: "open_registry = \<lparr>breakers = [(''default'', open_breaker)]\<rparr>"
  by (simp add: open_registry_def open_breaker_def default_service_def breaker_defs Let_def)

theorem circuit_denial_is_503_witness:
  "client started_router = Some \<lparr>sent = []\<rparr> \<and>
   target_service (\<lambda>p s. False) started_router sample_request None = Some ''default'' \<and>
   map_of (services started_router) ''default'' = Some default_service \<and>
   can_execute open_breaker 6 6 6 =
     (open_breaker, False, Some (CircuitOpenReason ''default'' 29)) \<and>
   main_proxy_request (\<lambda>p s. False) (\<lambda>b p. b @ p) (\<lambda>call. Inl ConnectError)
       (Some started_router) open_registry sample_request 6 6 6 6 7 7 8 8 =
     ((Some started_router, open_registry),
      Inr \<lparr>content = ErrorJson ''Service unavailable''
                       (CircuitOpenError (Some (CircuitOpenReason ''default'' 29))),
           status_code = 503, headers = [(''Retry-After'', ''30'')]\<rparr>)"
proof -
  have h1: "client started_router = Some \<lparr>sent = []\<rparr>" by (simp add: started_router_def)
  have h3: "''default'' \<noteq> []" by simp
  have h5: "get_or_create open_registry ''default'' (circuit_breaker default_service) 6 =
              (open_registry, open_breaker)"
    by (simp add: get_or_create_def open_registry_eq)
  have h6: "can_execute open_breaker 6 6 6 =
              (open_breaker, False, Some (CircuitOpenReason ''default'' 29))"
    by (simp add: open_breaker_def breaker_defs Let_def)
  have upd: "open_registry\<lparr>breakers := AList.update ''default'' open_breaker (breakers open_registry)\<rparr>
               = open_registry"
    by (simp add: open_registry_eq)
  from circuit_denial_is_503 [OF h1 sample_target h3 sample_service h5 h6,
         of "\<lambda>b p. b @ p" "\<lambda>call. Inl ConnectError" 7 7 8 8]
    h1 sample_target sample_service h6 upd
  show ?thesis by simp
qed

section \<open>The rate-limit response\<close>

lemma py_int_nonneg: "0 \<le> x \<Longrightarrow> py_int x = \<lfloor>x\<rfloor>"
  by (simp add: py_int_def)

lemma spent_limiter_eq:
  "spent_limiter =
     \<lparr>rate_configs = [FREE \<mapsto> \<lparr>tokens_per_second = 2, RateLimitConfig.max_tokens = 1\<rparr>],
      buckets = [(''k1'', \<lparr>tokens = 0, max_tokens = 1, refill_rate = 2, last_refill = 0\<rparr>)],
      client_tiers = [(''k1'', FREE)]\<rparr>"
  by (simp add: spent_limiter_def fast_config_def default_config_def RateLimiter_init_def
        check_rate_limit_def get_or_create_bucket_def config_for_def update_tier_def
        consume_def refill_def available_tokens_def Let_def)

lemma sample_client: "get_client_id fast_config sample_request = ''k1''"
  by (simp add: get_client_id_def fast_config_def default_config_def sample_request_def
        headers_get_def lower_def lower_char_def Let_def)

lemma sample_cost: "get_token_cost (\<lambda>p s. False) fast_config (url_path sample_request) = 1"
  by (simp add: get_token_cost_def fast_config_def default_config_def)

lemma sample_not_exempt: "\<not> is_exempt_path (url_path sample_request)"
  by (simp add: is_exempt_path_def startswith_def sample_request_def)

lemma spent_check:
  "check_rate_limit spent_limiter ''k1'' FREE 1 0 0 0 = (spent_limiter, Inr (False, 1/2, 0))"
  by (simp add: spent_limiter_eq check_rate_limit_def get_or_create_bucket_def config_for_def
        update_tier_def consume_def refill_def available_tokens_def Let_def)

text \<open>
  C5, as amended. When the limiter denies a request of a path that is not exempt with
  \<open>retry_after = r\<close> and \<open>remaining = m\<close>, both not negative, the middleware returns a 429
  response with \<^verbatim>\<open>Retry-After\<close> \<open>= \<lfloor>r\<rfloor> + 1\<close>, \<^verbatim>\<open>X-RateLimit-Remaining\<close> \<open>= \<lfloor>m\<rfloor>\<close> and
  \<^verbatim>\<open>X-RateLimit-Reset\<close> \<open>= \<lfloor>now + r\<rfloor>\<close>, where \<open>now\<close> is the wall-clock reading.
\<close>
theorem rate_limited_headers:
  assumes "\<not> is_exempt_path (url_path request)"
    and "check_rate_limit L (get_client_id cfg request) (tier_resolver (get_client_id cfg request))
           (get_token_cost re_match cfg (url_path request)) now0 now1 now2 = (L1, Inr (False, r, m))"
    and "0 \<le> r" and "0 \<le> m" and "0 \<le> wall_now"
  shows "\<exists>resp. dispatch re_match cfg tier_resolver L request call_next now0 now1 now2 wall_now
                  = (L1, Inr resp) \<and>
           status_code resp = 429 \<and>
           map_of (headers resp) ''Retry-After'' = Some (str_int (\<lfloor>r\<rfloor> + 1)) \<and>
           map_of (headers resp) ''X-RateLimit-Remaining'' = Some (str_int \<lfloor>m\<rfloor>) \<and>
           map_of (headers resp) ''X-RateLimit-Reset'' = Some (str_int \<lfloor>wall_now + r\<rfloor>)"
  using assms
  by (simp add: dispatch_def Let_def rate_limited_response_def py_int_nonneg)

theorem rate_limited_headers_witness:
  "\<not> is_exempt_path (url_path sample_request) \<and>
   check_rate_limit spent_limiter (get_client_id fast_config sample_request) FREE
     (get_token_cost (\<lambda>p s. False) fast_config (url_path sample_request)) 0 0 0
     = (spent_limiter, Inr (False, 1/2, 0)) \<and>
   (\<exists>resp. dispatch (\<lambda>p s. False) fast_config (\<lambda>c. FREE) spent_limiter sample_request
             (\<lambda>req. \<lparr>content = Bytes [], status_code = 200, headers = []\<rparr>) 0 0 0 100
             = (spent_limiter, Inr resp) \<and>
           status_code resp = 429 \<and>
           map_of (headers resp) ''Retry-After'' = Some ''1'' \<and>
           map_of (headers resp) ''X-RateLimit-Remaining'' = Some ''0'' \<and>
           map_of (headers resp) ''X-RateLimit-Reset'' = Some ''100'')"
proof -
  have h2: "check_rate_limit spent_limiter (get_client_id fast_config sample_request)
              ((\<lambda>c. FREE) (get_client_id fast_config sample_request))
              (get_token_cost (\<lambda>p s. False) fast_config (url_path sample_request)) 0 0 0
            = (spent_limiter, Inr (False, 1/2, 0))"
    by (simp add: sample_client sample_cost spent_check)
  have f: "\<lfloor>1/2 :: real\<rfloor> = 0" "\<lfloor>100 + 1/2 :: real\<rfloor> = 100" by (simp_all add: floor_eq_iff)
  from rate_limited_headers [OF sample_not_exempt h2, of 100
         "\<lambda>req. \<lparr>content = Bytes [], status_code = 200, headers = []\<rparr>"]
    sample_not_exempt h2
  show ?thesis by (simp add: f str_int_def str_nat.simps)
qed

text \<open>
  C5 as stated gives \<^verbatim>\<open>Retry-After\<close> as \<open>\<lceil>r\<rceil> + 1\<close>. A client that has spent the one token
  of a bucket refilling at two tokens per second is denied with \<open>r = 1/2\<close>; the header is
  \<open>1\<close>, and \<open>\<lceil>1/2\<rceil> + 1\<close> is \<open>2\<close>.
\<close>
theorem rate_limited_headers_counterexample:
  "snd (dispatch (\<lambda>p s. False) fast_config (\<lambda>c. FREE) spent_limiter sample_request
          (\<lambda>req. \<lparr>content = Bytes [], status_code = 200, headers = []\<rparr>) 0 0 0 100)
     = Inr (rate_limited_response (1/2) 0 100) \<and>
   map_of (headers (rate_limited_response (1/2) 0 100)) ''Retry-After'' = Some ''1'' \<and>
   str_int (\<lceil>1/2 :: real\<rceil> + 1) = ''2''"
proof -
  have c: "\<lceil>1/2 :: real\<rceil> = 1" by (simp add: ceiling_eq_iff)
  show ?thesis
    by (simp add: dispatch_def Let_def sample_client sample_cost sample_not_exempt spent_check
          rate_limited_response_def py_int_def str_int_def str_nat.simps c)
qed

section \<open>Reset, status and eviction\<close>

lemma spent_bucket:
  "map_of (buckets spent_limiter) ''k1'' =
     Some \<lparr>tokens = 0, max_tokens = 1, refill_rate = 2, last_refill = 0\<rparr>"
  by (simp add: spent_limiter_eq)

text \<open>
  C8. With a monotonic clock and a refill rate that is not negative: for a client with a
  bucket, \<^verbatim>\<open>reset_client\<close> returns true, sets the tokens to the capacity and the time
  stamp to its reading, and the status query that follows reports \<open>available_tokens\<close>
  equal to \<open>max_tokens\<close>; for a client without a bucket \<^verbatim>\<open>reset_client\<close> returns
  false and changes nothing.
\<close>
theorem reset_then_status_is_full:
  assumes "t1 \<le> t2"
    and "case map_of (buckets L) c of None \<Rightarrow> True | Some b \<Rightarrow> 0 \<le> refill_rate b"
  shows "(case map_of (buckets L) c of
            None \<Rightarrow> reset_client L c t1 = (L, False)
          | Some b \<Rightarrow>
              snd (reset_client L c t1) = True \<and>
              map_of (buckets (fst (reset_client L c t1))) c =
                Some (b\<lparr>tokens := of_int (max_tokens b), last_refill := t1\<rparr>) \<and>
              (\<exists>st. snd (get_client_status (fst (reset_client L c t1)) c t2) = Some st \<and>
                    st_available_tokens st = of_int (st_max_tokens st) \<and>
                    st_max_tokens st = max_tokens b))"
proof (cases "map_of (buckets L) c")
  case None
  then show ?thesis by (simp add: reset_client_def)
next
  case (Some b)
  with assms(2) have r: "0 \<le> refill_rate b" by simp
  from assms(1) r have "0 \<le> (t2 - t1) * refill_rate b" by simp
  then have m: "min (real_of_int (max_tokens b)) (real_of_int (max_tokens b) + (t2 - t1) * refill_rate b)
                 = real_of_int (max_tokens b)" by simp
  from Some m show ?thesis
    by (simp add: reset_client_def get_client_status_def available_tokens_def refill_def
          update_conv' Let_def)
qed

theorem reset_then_status_is_full_witness:
  "(3::real) \<le> 4 \<and>
   (case map_of (buckets spent_limiter) ''k1'' of None \<Rightarrow> True | Some b \<Rightarrow> 0 \<le> refill_rate b) \<and>
   snd (reset_client spent_limiter ''k1'' 3) = True \<and>
   (\<exists>st. snd (get_client_status (fst (reset_client spent_limiter ''k1'' 3)) ''k1'' 4) = Some st \<and>
         st_available_tokens st = of_int (st_max_tokens st) \<and> st_max_tokens st = 1) \<and>
   reset_client spent_limiter ''nobody'' 3 = (spent_limiter, False)"
proof -
  have h1: "(3::real) \<le> 4" by simp
  have h2: "case map_of (buckets spent_limiter) ''k1'' of None \<Rightarrow> True
            | Some b \<Rightarrow> 0 \<le> refill_rate b"
    by (simp add: spent_bucket)
  have h3: "case map_of (buckets spent_limiter) ''nobody'' of None \<Rightarrow> True
            | Some b \<Rightarrow> 0 \<le> refill_rate b"
    by (simp add: spent_limiter_eq)
  have n: "map_of (buckets spent_limiter) ''nobody'' = None" by (simp add: spent_limiter_eq)
  from reset_then_status_is_full [OF h1 h2] reset_then_status_is_full [OF h1 h3] h1 h2
  show ?thesis by (simp add: spent_bucket n)
qed

lemma map_of_fold_delete:
  "map_of (fold AList.delete ks al) k = (if k \<in> set ks then None else map_of al k)"
  by (induction ks arbitrary: al) (simp_all add: delete_conv')

lemma distinct_fold_delete:
  "distinct (map fst al) \<Longrightarrow> distinct (map fst (fold AList.delete ks al))"
  by (induction ks arbitrary: al) (simp_all add: distinct_delete)

lemma cleanup_keeps_fresh:
  assumes "distinct (map fst (buckets L))"
    and "map_of (buckets L) c = Some b"
    and "now - last_refill b \<le> max_idle"
  shows "map_of (buckets (fst (cleanup_inactive L max_idle now))) c = Some b"
proof -
  have "c \<notin> fst ` {x \<in> set (buckets L). case x of (client_id, bucket) \<Rightarrow>
                       max_idle < now - last_refill bucket}"
  proof
    assume "c \<in> fst ` {x \<in> set (buckets L). case x of (client_id, bucket) \<Rightarrow>
                       max_idle < now - last_refill bucket}"
    then obtain b' where in_set: "(c, b') \<in> set (buckets L)"
      and stale: "max_idle < now - last_refill b'" by auto
    from assms(1) in_set have "map_of (buckets L) c = Some b'" by simp
    with assms(2) have "b' = b" by simp
    with stale assms(3) show False by simp
  qed
  then show ?thesis
    using assms(2) by (simp add: cleanup_inactive_def Let_def map_of_fold_delete)
qed

lemma cleanup_distinct:
  "distinct (map fst (buckets L)) \<Longrightarrow>
   distinct (map fst (buckets (fst (cleanup_inactive L max_idle now))))"
  by (simp add: cleanup_inactive_def Let_def distinct_fold_delete)

lemma status_refills:
  assumes "map_of (buckets L) c = Some b"
  shows "map_of (buckets (fst (get_client_status L c t))) c = Some (refill b t)"
  using assms
  by (simp add: get_client_status_def available_tokens_def Let_def update_conv')

lemma status_distinct:
  "distinct (map fst (buckets L)) \<Longrightarrow>
   distinct (map fst (buckets (fst (get_client_status L c t))))"
  by (simp add: get_client_status_def available_tokens_def Let_def distinct_update
           split: option.splits)

lemma poll_rounds_keep:
  assumes "distinct (map fst (buckets L))"
    and "map_of (buckets L) c \<noteq> None"
    and "list_all (\<lambda>(t, max_idle, now). now - t \<le> max_idle) rounds"
  shows "map_of (buckets (poll_rounds L c rounds)) c \<noteq> None"
  using assms
proof (induction rounds arbitrary: L)
  case Nil
  then show ?case by simp
next
  case (Cons r rounds)
  obtain t max_idle now where r: "r = (t, max_idle, now)" by (cases r) auto
  from Cons.prems(2) obtain b where b: "map_of (buckets L) c = Some b" by auto
  let ?L1 = "fst (get_client_status L c t)"
  let ?L2 = "fst (cleanup_inactive ?L1 max_idle now)"
  have d1: "distinct (map fst (buckets ?L1))" by (rule status_distinct [OF Cons.prems(1)])
  have b1: "map_of (buckets ?L1) c = Some (refill b t)" by (rule status_refills [OF b])
  from Cons.prems(3) r have fresh: "now - last_refill (refill b t) \<le> max_idle"
    by (simp add: refill_def Let_def)
  have b2: "map_of (buckets ?L2) c = Some (refill b t)"
    by (rule cleanup_keeps_fresh [OF d1 b1 fresh])
  have d2: "distinct (map fst (buckets ?L2))" by (rule cleanup_distinct [OF d1])
  from Cons.prems(3) r have rest: "list_all (\<lambda>(t, max_idle, now). now - t \<le> max_idle) rounds"
    by simp
  from Cons.IH [OF d2 _ rest] b2 show ?case by (simp add: r)
qed

text \<open>
  C10. A status query for a client with a bucket writes the refilled bucket back: the
  tokens become \<open>min capacity (tokens + (t - last_refill) * rate)\<close>, at most the capacity,
  and the time stamp becomes the time \<open>t\<close> of the query. In consequence, through any
  number of rounds of a status query followed by a sweep of \<^verbatim>\<open>cleanup_inactive\<close> no
  later than \<open>max_idle\<close> after the query, the bucket is never evicted.
\<close>
theorem status_query_refills_and_defers_eviction:
  assumes "distinct (map fst (buckets L))"
    and "map_of (buckets L) c = Some b"
    and "list_all (\<lambda>(t, max_idle, now). now - t \<le> max_idle) rounds"
  shows "map_of (buckets (fst (get_client_status L c t))) c =
           Some (b\<lparr>tokens := min (of_int (max_tokens b))
                              (tokens b + (t - last_refill b) * refill_rate b),
                   last_refill := t\<rparr>) \<and>
         min (of_int (max_tokens b)) (tokens b + (t - last_refill b) * refill_rate b)
           \<le> of_int (max_tokens b) \<and>
         map_of (buckets (poll_rounds L c rounds)) c \<noteq> None"
proof -
  have "map_of (buckets L) c \<noteq> None" using assms(2) by simp
  from poll_rounds_keep [OF assms(1) this assms(3)] status_refills [OF assms(2), of t]
  show ?thesis by (simp add: refill_def Let_def)
qed

theorem status_query_refills_and_defers_eviction_witness:
  "distinct (map fst (buckets spent_limiter)) \<and>
   map_of (buckets spent_limiter) ''k1'' =
     Some \<lparr>tokens = 0, max_tokens = 1, refill_rate = 2, last_refill = 0\<rparr> \<and>
   list_all (\<lambda>(t, max_idle, now). now - t \<le> max_idle)
     [(3000, 3600, 4000 :: real), (7000, 3600, 8000)] \<and>
   map_of (buckets (fst (get_client_status spent_limiter ''k1'' 3000))) ''k1'' =
     Some \<lparr>tokens = 1, max_tokens = 1, refill_rate = 2, last_refill = 3000\<rparr> \<and>
   map_of (buckets (poll_rounds spent_limiter ''k1'' [(3000, 3600, 4000), (7000, 3600, 8000)]))
     ''k1'' \<noteq> None \<and>
   map_of (buckets (fst (cleanup_inactive spent_limiter 3600 4000))) ''k1'' = None"
proof -
  have h1: "distinct (map fst (buckets spent_limiter))" by (simp add: spent_limiter_eq)
  have h3: "list_all (\<lambda>(t, max_idle, now). now - t \<le> max_idle)
              [(3000, 3600, 4000 :: real), (7000, 3600, 8000)]" by simp
  have ev: "map_of (buckets (fst (cleanup_inactive spent_limiter 3600 4000))) ''k1'' = None"
    by (simp add: spent_limiter_eq cleanup_inactive_def Let_def)
  from status_query_refills_and_defers_eviction [OF h1 spent_bucket h3, of 3000]
    h1 spent_bucket h3 ev
  show ?thesis by simp
qed

section \<open>The bucket invariant\<close>

lemma valid_configsD:
  assumes "valid_configs rc" and "rc tier = Some cfg"
  shows "0 < tokens_per_second cfg \<and> 0 < RateLimitConfig.max_tokens cfg"
  using assms by (cases tier) (simp_all add: valid_configs_def)

lemma config_for_valid:
  assumes "valid_configs (rate_configs L)" and "config_for L tier = Inr cfg"
  shows "0 < tokens_per_second cfg \<and> 0 < RateLimitConfig.max_tokens cfg"
  using assms valid_configsD [of "rate_configs L"]
  by (auto simp: config_for_def split: option.splits)

lemma set_update_subset: "set (AList.update k v al) \<subseteq> insert (k, v) (set al)"
  by (induction al) auto

lemma set_fold_delete_subset: "set (fold AList.delete ks al) \<subseteq> set al"
proof (induction ks arbitrary: al)
  case Nil
  show ?case by simp
next
  case (Cons k ks)
  have "set (fold AList.delete ks (AList.delete k al)) \<subseteq> set (AList.delete k al)"
    by (rule Cons.IH)
  also have "\<dots> \<subseteq> set al" by (auto simp: AList.delete_eq)
  finally show ?case by simp
qed

lemma limiter_inv_iff:
  "limiter_inv L now \<longleftrightarrow> (\<forall>(c, b) \<in> set (buckets L). bucket_inv b now)"
  by (simp add: limiter_inv_def list_all_iff)

lemma bucket_inv_mono: "bucket_inv b t \<Longrightarrow> t \<le> t' \<Longrightarrow> bucket_inv b t'"
  by (simp add: bucket_inv_def)

lemma limiter_inv_update:
  assumes "limiter_inv L now" and "now \<le> t" and "bucket_inv b t"
    and "buckets L' = AList.update c b (buckets L)"
  shows "limiter_inv L' t"
proof -
  have "\<forall>(k, v) \<in> set (buckets L'). bucket_inv v t"
  proof (clarify)
    fix k v assume "(k, v) \<in> set (buckets L')"
    with assms(4) set_update_subset [of c b "buckets L"]
    have "(k, v) = (c, b) \<or> (k, v) \<in> set (buckets L)" by auto
    then show "bucket_inv v t"
      using assms(1-3) by (auto simp: limiter_inv_iff dest: bucket_inv_mono)
  qed
  then show ?thesis by (simp add: limiter_inv_iff)
qed

lemma limiter_inv_subset:
  assumes "limiter_inv L now" and "now \<le> t" and "set (buckets L') \<subseteq> set (buckets L)"
  shows "limiter_inv L' t"
  using assms by (auto simp: limiter_inv_iff dest: bucket_inv_mono)

lemma limiter_inv_mono: "limiter_inv L now \<Longrightarrow> now \<le> t \<Longrightarrow> limiter_inv L t"
  by (rule limiter_inv_subset [where L = L]) simp_all

lemma bucket_inv_refillable: "bucket_inv b t \<Longrightarrow> t \<le> t' \<Longrightarrow> refillable b t'"
  by (auto simp: bucket_inv_def refillable_def)

lemma refill_inv: "refillable b t \<Longrightarrow> bucket_inv (refill b t) t"
  by (simp add: refillable_def bucket_inv_def refill_def Let_def)

lemma consume_refillable:
  assumes "refillable b t" and "consume b n t = (b2, r)"
  shows "refillable b2 t"
proof -
  from refill_inv [OF assms(1)] have "bucket_inv (refill b t) t" .
  with assms(2) show ?thesis
    by (auto simp: consume_def Let_def bucket_inv_def refillable_def refill_def
             split: if_splits)
qed

lemma consume_error_inv:
  assumes "refillable b t" and "consume b n t = (b2, Inl e)"
  shows "bucket_inv b2 t"
  using refill_inv [OF assms(1)] assms(2)
  by (auto simp: consume_def Let_def split: if_splits)

lemma update_tier_refillable:
  assumes "valid_configs (rate_configs L)" and "refillable b t"
    and "update_tier L c tier b = Inr (b1, tiers1)"
  shows "refillable b1 t"
  using assms config_for_valid [OF assms(1), of tier]
  by (auto simp: update_tier_def refillable_def split: if_splits sum.splits)

lemma get_or_create_cases:
  assumes "get_or_create_bucket L c tier n0 = Inr (L1, b)"
  shows "(map_of (buckets L) c = Some b \<and> L1 = L) \<or>
         (map_of (buckets L) c = None \<and>
          (\<exists>cfg. config_for L tier = Inr cfg \<and>
                 b = \<lparr>tokens = of_int (RateLimitConfig.max_tokens cfg),
                      max_tokens = RateLimitConfig.max_tokens cfg,
                      refill_rate = tokens_per_second cfg, last_refill = n0\<rparr>) \<and>
          buckets L1 = AList.update c b (buckets L) \<and> rate_configs L1 = rate_configs L)"
  using assms
  by (auto simp: get_or_create_bucket_def Let_def split: option.splits sum.splits)

lemma check_rate_limit_inv:
  assumes v: "valid_configs (rate_configs L)" and inv: "limiter_inv L now"
    and clk: "now \<le> n0" "n0 \<le> n1" "n1 \<le> n2"
  shows "limiter_inv (fst (check_rate_limit L c tier cost n0 n1 n2)) n2"
proof -
  have now2: "now \<le> n2" using clk by simp
  show ?thesis
  proof (cases "get_or_create_bucket L c tier n0")
  case (Inl e)
  then have "fst (check_rate_limit L c tier cost n0 n1 n2) = L"
    by (simp add: check_rate_limit_def)
  with limiter_inv_mono [OF inv now2] show ?thesis by simp
next
  case (Inr p)
  obtain L1 b where p: "p = (L1, b)" by (cases p) auto
  note goc = get_or_create_cases [OF Inr [unfolded p]]
  have L1: "limiter_inv L1 n2" and b: "refillable b n1"
    and upd: "AList.update c x (buckets L1) = AList.update c x (buckets L)"
    and rc1: "rate_configs L1 = rate_configs L" for x
  proof -
    from goc show "limiter_inv L1 n2"
    proof
      assume "map_of (buckets L) c = Some b \<and> L1 = L"
      with limiter_inv_mono [OF inv now2] show ?thesis by simp
    next
      assume a: "map_of (buckets L) c = None \<and>
          (\<exists>cfg. config_for L tier = Inr cfg \<and>
                 b = \<lparr>tokens = of_int (RateLimitConfig.max_tokens cfg),
                      max_tokens = RateLimitConfig.max_tokens cfg,
                      refill_rate = tokens_per_second cfg, last_refill = n0\<rparr>) \<and>
          buckets L1 = AList.update c b (buckets L) \<and> rate_configs L1 = rate_configs L"
      then obtain cfg where cfg: "config_for L tier = Inr cfg"
        and bdef: "b = \<lparr>tokens = of_int (RateLimitConfig.max_tokens cfg),
                      max_tokens = RateLimitConfig.max_tokens cfg,
                      refill_rate = tokens_per_second cfg, last_refill = n0\<rparr>" by auto
      from config_for_valid [OF v cfg] bdef clk have "bucket_inv b n2"
        by (simp add: bucket_inv_def)
      with limiter_inv_update [OF inv now2] a show ?thesis by blast
    qed
    from goc show "refillable b n1"
    proof
      assume a: "map_of (buckets L) c = Some b \<and> L1 = L"
      then have "(c, b) \<in> set (buckets L)" by (auto dest: map_of_SomeD)
      with inv have "bucket_inv b now" by (auto simp: limiter_inv_iff)
      then show ?thesis using clk by (auto intro: bucket_inv_refillable)
    next
      assume a: "map_of (buckets L) c = None \<and>
          (\<exists>cfg. config_for L tier = Inr cfg \<and>
                 b = \<lparr>tokens = of_int (RateLimitConfig.max_tokens cfg),
                      max_tokens = RateLimitConfig.max_tokens cfg,
                      refill_rate = tokens_per_second cfg, last_refill = n0\<rparr>) \<and>
          buckets L1 = AList.update c b (buckets L) \<and> rate_configs L1 = rate_configs L"
      then obtain cfg where cfg: "config_for L tier = Inr cfg"
        and bdef: "b = \<lparr>tokens = of_int (RateLimitConfig.max_tokens cfg),
                      max_tokens = RateLimitConfig.max_tokens cfg,
                      refill_rate = tokens_per_second cfg, last_refill = n0\<rparr>" by auto
      from config_for_valid [OF v cfg] bdef clk show ?thesis
        by (simp add: refillable_def)
    qed
    from goc show "AList.update c x (buckets L1) = AList.update c x (buckets L)"
      by auto
    from goc show "rate_configs L1 = rate_configs L" by auto
  qed
  show ?thesis
  proof (cases "update_tier L1 c tier b")
    case (Inl e)
    with Inr p have "fst (check_rate_limit L c tier cost n0 n1 n2) = L1"
      by (simp add: check_rate_limit_def)
    with L1 show ?thesis by simp
  next
    case (Inr q)
    obtain b1 tiers1 where q: "q = (b1, tiers1)" by (cases q) auto
    from v rc1 have v1: "valid_configs (rate_configs L1)" by simp
    have b1: "refillable b1 n1"
      by (rule update_tier_refillable [OF v1 b Inr [unfolded q]])
    obtain b2 r where cons: "consume b1 cost n1 = (b2, r)" by (cases "consume b1 cost n1") auto
    have b2: "refillable b2 n1" by (rule consume_refillable [OF b1 cons])
    show ?thesis
    proof (cases r)
      case (Inl e)
      from consume_error_inv [OF b1 cons [unfolded Inl]] clk have "bucket_inv b2 n2"
        by (auto dest: bucket_inv_mono)
      moreover from \<open>get_or_create_bucket L c tier n0 = Inr p\<close> p Inr q cons Inl
      have "buckets (fst (check_rate_limit L c tier cost n0 n1 n2)) = AList.update c b2 (buckets L)"
        by (simp add: check_rate_limit_def upd)
      ultimately show ?thesis using limiter_inv_update [OF inv now2] by blast
    next
      case (Inr ar)
      obtain a ra where ar: "ar = (a, ra)" by (cases ar) auto
      from b2 clk have "refillable b2 n2" by (simp add: refillable_def)
      then have "bucket_inv (refill b2 n2) n2" by (rule refill_inv)
      moreover from \<open>get_or_create_bucket L c tier n0 = Inr p\<close> p \<open>update_tier L1 c tier b = Inr q\<close>
        q cons Inr ar
      have "buckets (fst (check_rate_limit L c tier cost n0 n1 n2)) =
              AList.update c (refill b2 n2) (buckets L)"
        by (simp add: check_rate_limit_def available_tokens_def Let_def upd)
      ultimately show ?thesis using limiter_inv_update [OF inv now2] by blast
    qed
  qed
  qed
qed

lemma get_client_status_inv:
  assumes inv: "limiter_inv L now" and clk: "now \<le> t"
  shows "limiter_inv (fst (get_client_status L c t)) t"
proof (cases "map_of (buckets L) c")
  case None
  then have "fst (get_client_status L c t) = L" by (simp add: get_client_status_def)
  with limiter_inv_mono [OF inv clk] show ?thesis by simp
next
  case (Some b)
  then have "(c, b) \<in> set (buckets L)" by (rule map_of_SomeD)
  with inv have "bucket_inv b now" by (auto simp: limiter_inv_iff)
  from refill_inv [OF bucket_inv_refillable [OF this clk]]
  have "bucket_inv (refill b t) t" .
  moreover from Some have "buckets (fst (get_client_status L c t)) =
      AList.update c (refill b t) (buckets L)"
    by (simp add: get_client_status_def available_tokens_def Let_def)
  ultimately show ?thesis using limiter_inv_update [OF inv clk] by blast
qed

lemma reset_client_inv:
  assumes inv: "limiter_inv L now" and clk: "now \<le> t"
  shows "limiter_inv (fst (reset_client L c t)) t"
proof (cases "map_of (buckets L) c")
  case None
  then have "fst (reset_client L c t) = L" by (simp add: reset_client_def)
  with limiter_inv_mono [OF inv clk] show ?thesis by simp
next
  case (Some b)
  then have "(c, b) \<in> set (buckets L)" by (rule map_of_SomeD)
  with inv have "bucket_inv b now" by (auto simp: limiter_inv_iff)
  then have "bucket_inv (b\<lparr>tokens := of_int (max_tokens b), last_refill := t\<rparr>) t"
    by (simp add: bucket_inv_def)
  moreover from Some have "buckets (fst (reset_client L c t)) =
      AList.update c (b\<lparr>tokens := of_int (max_tokens b), last_refill := t\<rparr>) (buckets L)"
    by (simp add: reset_client_def)
  ultimately show ?thesis using limiter_inv_update [OF inv clk] by blast
qed

lemma remove_client_inv:
  assumes inv: "limiter_inv L now"
  shows "limiter_inv (fst (remove_client L c)) now"
proof -
  have "set (buckets (fst (remove_client L c))) \<subseteq> set (buckets L)"
    by (auto simp: remove_client_def AList.delete_eq split: option.splits)
  from limiter_inv_subset [OF inv _ this] show ?thesis by simp
qed

lemma cleanup_inactive_inv:
  assumes inv: "limiter_inv L now" and clk: "now \<le> t"
  shows "limiter_inv (fst (cleanup_inactive L max_idle t)) t"
proof -
  have "set (buckets (fst (cleanup_inactive L max_idle t))) \<subseteq> set (buckets L)"
    by (simp add: cleanup_inactive_def Let_def set_fold_delete_subset)
  from limiter_inv_subset [OF inv clk this] show ?thesis .
qed

lemma limiter_step_inv:
  assumes "valid_configs (rate_configs L)" and "limiter_inv L now" and "clock_ok now x"
  shows "limiter_inv (limiter_step L x) (op_end now x)"
proof (cases x)
  case (CheckRateLimit c tier cost n0 n1 n2)
  with assms(3) have "now \<le> n0" "n0 \<le> n1" "n1 \<le> n2" by (simp_all add: clock_ok_def)
  from check_rate_limit_inv [OF assms(1,2) this] CheckRateLimit show ?thesis
    by (simp add: op_end_def)
next
  case (GetClientStatus c t)
  with assms(3) have "now \<le> t" by (simp add: clock_ok_def)
  from get_client_status_inv [OF assms(2) this] GetClientStatus show ?thesis
    by (simp add: op_end_def)
next
  case (ResetClient c t)
  with assms(3) have "now \<le> t" by (simp add: clock_ok_def)
  from reset_client_inv [OF assms(2) this] ResetClient show ?thesis
    by (simp add: op_end_def)
next
  case (RemoveClient c)
  from remove_client_inv [OF assms(2)] RemoveClient show ?thesis
    by (simp add: op_end_def)
next
  case (CleanupInactive max_idle t)
  with assms(3) have "now \<le> t" by (simp add: clock_ok_def)
  from cleanup_inactive_inv [OF assms(2) this] CleanupInactive show ?thesis
    by (simp add: op_end_def)
qed

lemma limiter_step_configs: "rate_configs (limiter_step L x) = rate_configs L"
  by (cases x)
     (auto simp: check_rate_limit_def get_or_create_bucket_def update_tier_def
                 get_client_status_def reset_client_def remove_client_def cleanup_inactive_def
                 available_tokens_def Let_def
           split: option.splits sum.splits prod.splits if_splits)








lemma limiter_run_inv:
  assumes "valid_configs (rate_configs L)" and "limiter_inv L now" and "clock_ok_run now xs"
  shows "limiter_inv (limiter_run L xs) (run_end now xs)"
  using assms
proof (induction xs arbitrary: L now)
  case Nil
  then show ?case by simp
next
  case (Cons x xs)
  from Cons.prems(3) have c1: "clock_ok now x" and c2: "clock_ok_run (op_end now x) xs"
    by simp_all
  have v: "valid_configs (rate_configs (limiter_step L x))"
    using Cons.prems(1) by (simp add: limiter_step_configs)
  from Cons.IH [OF v limiter_step_inv [OF Cons.prems(1,2) c1] c2] show ?case by simp
qed

lemma limiter_init_inv: "limiter_inv (RateLimiter_init rc) now"
  by (simp add: limiter_inv_def RateLimiter_init_def)

text \<open>
  Every bucket that a limiter built over validated configurations comes to hold is
  within its bounds and has a positive refill rate.
\<close>

lemma reachable_bucket_bounds:
  assumes "valid_configs rc" and "clock_ok_run now xs"
    and "map_of (buckets (limiter_run (RateLimiter_init rc) xs)) c = Some b"
  shows "0 \<le> tokens b \<and> tokens b \<le> of_int (max_tokens b) \<and> 0 < refill_rate b"
proof -
  have "valid_configs (rate_configs (RateLimiter_init rc))"
    using assms(1) by (simp add: RateLimiter_init_def)
  from limiter_run_inv [OF this limiter_init_inv assms(2)]
  have "limiter_inv (limiter_run (RateLimiter_init rc) xs) (run_end now xs)" .
  moreover from assms(3) have "(c, b) \<in> set (buckets (limiter_run (RateLimiter_init rc) xs))"
    by (rule map_of_SomeD)
  ultimately have "bucket_inv b (run_end now xs)" by (auto simp: limiter_inv_iff)
  then show ?thesis by (simp add: bucket_inv_def)
qed






end
